theory Spec2Isabelle
  imports Main "HOL-Library.Multiset"
begin

section \<open>Data model\<close>

text \<open>
  The game engine of PuntoDB: the classes \<open>Card\<close>, \<open>Player\<close> and \<open>Board\<close>.

  Objects are identified by position: a \<open>Player\<close> reference is the index of the player in
  the board's \<open>_players\<close> array (the array is filled by the constructor and never
  reordered), so \<open>playedBy\<close>, \<open>winners\<close> and \<open>losers\<close> hold indices. The UUID of
  \<open>BaseId\<close> is unique per object, so comparing \<open>id\<close>s and comparing references agree.

  Coordinates and values are JavaScript numbers that the engine only ever fills with
  integers (\<open>parseInt\<close> results and offsets by one); they are \<open>int\<close> here. The source
  initialises \<open>x\<close> and \<open>y\<close> of a card that has not been placed to \<open>NaN\<close>; the engine
  reads the coordinates of the cards of the board's list only, where \<open>placeCard\<close> has
  stored the cell, so the model starts them at 0.
\<close>

record card =
  color :: string
  cardValue :: int
  card_x :: int
  card_y :: int
  playedTurn :: int
  playedIn :: int
  playedBy :: "nat option"

record player =
  name :: string
  deck :: "card list"
  hand :: "card option"
  points :: int
  isTurn :: bool
  playerColor :: "string list"
  nbrFirstPlayer :: int

datatype WinType = Win | Draw | Drop | NoWin

text \<open>\<open>NoWin\<close> is the member \<open>WinType.None\<close> of the source.\<close>

record board =
  cards :: "card list"
  players :: "player list"
  turn :: int
  winType :: WinType
  winners :: "nat list"
  losers :: "nat list"

type_synonym Coordinates = "int \<times> int"

section \<open>Card and Player\<close>

definition newCard :: "string \<Rightarrow> int \<Rightarrow> card" where
  "newCard c v =
     \<lparr>color = c, cardValue = v, card_x = 0, card_y = 0,
      playedTurn = -1, playedIn = -1, playedBy = None\<rparr>"

definition drawCard :: "player \<Rightarrow> bool \<times> player" where
  "drawCard p =
     (case deck p of
        [] \<Rightarrow> (False, p)
      | _ # _ \<Rightarrow> (True, p\<lparr>deck := butlast (deck p), hand := Some (last (deck p))\<rparr>))"

definition cardInHand :: "player \<Rightarrow> card option" where
  "cardInHand p = hand p"

definition removeCardFromHand :: "player \<Rightarrow> bool \<times> player" where
  "removeCardFromHand p =
     (case hand p of
        Some _ \<Rightarrow> (True, p\<lparr>hand := None\<rparr>)
      | None \<Rightarrow> (False, p))"

definition addPoints :: "int \<Rightarrow> player \<Rightarrow> player" where
  "addPoints n p = p\<lparr>points := points p + n\<rparr>"

definition resetPlayer :: "player \<Rightarrow> player" where
  "resetPlayer p = p\<lparr>deck := [], hand := None, points := 0, isTurn := False, playerColor := []\<rparr>"

section \<open>Board: placement\<close>

definition boardIsEmpty :: "board \<Rightarrow> bool" where
  "boardIsEmpty b = (length (cards b) = 0)"

definition boardIsFull :: "board \<Rightarrow> bool" where
  "boardIsFull b = (length (cards b) = 72)"

definition nbrPlayers :: "board \<Rightarrow> nat" where
  "nbrPlayers b = length (players b)"

text \<open>
  \<open>lineExceedsLimit\<close> first walks over the placed cards, keeping four extremes that all
  start at 0; \<open>extremeStep\<close> is the body of that \<open>forEach\<close>. The tuple is
  \<open>(extremeMaxX, extremeMinX, extremeMaxY, extremeMinY)\<close>.
\<close>

definition extremeStep :: "int \<times> int \<times> int \<times> int \<Rightarrow> int \<times> int \<Rightarrow> int \<times> int \<times> int \<times> int" where
  "extremeStep e co =
     (case e of (maxX, minX, maxY, minY) \<Rightarrow>
        (if fst co > maxX then fst co else maxX,
         if fst co < minX then fst co else minX,
         if snd co > maxY then snd co else maxY,
         if snd co < minY then snd co else minY))"

definition boardExtremes :: "card list \<Rightarrow> int \<times> int \<times> int \<times> int" where
  "boardExtremes cs = foldl (\<lambda>e c. extremeStep e (card_x c, card_y c)) (0, 0, 0, 0) cs"

definition distanceReached :: "int \<times> int \<times> int \<times> int \<Rightarrow> int \<Rightarrow> bool" where
  "distanceReached e limit =
     (case e of (maxX, minX, maxY, minY) \<Rightarrow> maxX - minX \<ge> limit \<or> maxY - minY \<ge> limit)"

definition lineExceedsLimit :: "board \<Rightarrow> Coordinates \<Rightarrow> int \<Rightarrow> bool" where
  "lineExceedsLimit b co limit =
     (let e = boardExtremes (cards b) in
      if distanceReached e limit then True
      else if distanceReached (extremeStep e co) limit then True
      else False)"

text \<open>The candidate cells around one placed card, in the order the source pushes them.\<close>

definition possibleCoordinates :: "int \<Rightarrow> int \<Rightarrow> Coordinates list" where
  "possibleCoordinates cx cy =
     [(cx, cy)]
     @ (if cx + 1 \<le> 5 then [(cx + 1, cy)] else [])
     @ (if cx - 1 \<ge> -5 then [(cx - 1, cy)] else [])
     @ (if cy + 1 \<le> 5 then [(cx, cy + 1)] else [])
     @ (if cy - 1 \<ge> -5 then [(cx, cy - 1)] else [])
     @ (if cx + 1 \<le> 5 \<and> cy + 1 \<le> 5 then [(cx + 1, cy + 1)] else [])
     @ (if cx - 1 \<ge> -5 \<and> cy - 1 \<ge> -5 then [(cx - 1, cy - 1)] else [])
     @ (if cx + 1 \<le> 5 \<and> cy - 1 \<ge> -5 then [(cx + 1, cy - 1)] else [])
     @ (if cx - 1 \<ge> -5 \<and> cy + 1 \<le> 5 then [(cx - 1, cy + 1)] else [])"

text \<open>
  The filter of \<open>availableCoordinates\<close>: the flag \<open>canPlaceCard\<close> starts true and is
  cleared by every placed card on the cell whose value is at least the value to place.
\<close>

definition cellAccepts :: "card list \<Rightarrow> int \<Rightarrow> Coordinates \<Rightarrow> bool" where
  "cellAccepts cs v co =
     foldl (\<lambda>canPlaceCard cardOnBoard.
              if card_x cardOnBoard = fst co \<and> card_y cardOnBoard = snd co
              then (if cardValue cardOnBoard \<ge> v then False else canPlaceCard)
              else canPlaceCard) True cs"

definition availableCoordinates :: "board \<Rightarrow> int \<Rightarrow> Coordinates list" where
  "availableCoordinates b v =
     filter (\<lambda>co. \<not> lineExceedsLimit b co 6)
       (concat (map (\<lambda>cardOnBoard.
           filter (cellAccepts (cards b) v)
             (possibleCoordinates (card_x cardOnBoard) (card_y cardOnBoard))) (cards b)))"

definition cardCanBePlaced :: "board \<Rightarrow> card \<Rightarrow> int \<Rightarrow> int \<Rightarrow> bool" where
  "cardCanBePlaced b c px py =
     (if px > 5 \<or> px < -5 \<or> py > 5 \<or> py < -5 then False
      else if lineExceedsLimit b (px, py) 6 then False
      else if \<not> boardIsEmpty b then
        (let availablesCoordinates = availableCoordinates b (cardValue c) in
         if length availablesCoordinates = 0 then False
         else list_ex (\<lambda>co. fst co = px \<and> snd co = py) availablesCoordinates)
      else True)"

text \<open>
  \<open>placeCard\<close> writes the cell, the turn, the position in the turn and the player into the
  card object and pushes it on the board's list. The model returns the card as it is after
  the call next to the board.
\<close>

definition placeCard :: "board \<Rightarrow> card \<Rightarrow> int \<Rightarrow> int \<Rightarrow> int \<Rightarrow> nat \<Rightarrow> int \<Rightarrow> bool \<times> board \<times> card" where
  "placeCard b c px py t pl playerTurn =
     (if cardCanBePlaced b c px py then
        (let c' = c\<lparr>card_x := px, card_y := py, playedTurn := t, playedIn := playerTurn,
                    playedBy := Some pl\<rparr>
         in (True, b\<lparr>cards := cards b @ [c']\<rparr>, c'))
      else (False, b, c))"

text \<open>
  \<open>playCard\<close> of player number \<open>pl\<close> of the board. The result is the message, the board
  and the card argument after the call.
\<close>

definition playCard :: "board \<Rightarrow> nat \<Rightarrow> int \<Rightarrow> card \<Rightarrow> int \<Rightarrow> int \<Rightarrow> string \<times> board \<times> card" where
  "playCard b pl playerTurn c px py =
     (case cardInHand (players b ! pl) of
        None \<Rightarrow> (''The player does not have the card in hand.'', b, c)
      | Some _ \<Rightarrow>
          (case placeCard b c px py (turn b) pl playerTurn of
             (True, b', c') \<Rightarrow>
               (case removeCardFromHand (players b' ! pl) of
                  (removedResult, p') \<Rightarrow>
                    (if \<not> removedResult
                     then (''The card could not be removed from the player's hand.'',
                           b'\<lparr>players := (players b')[pl := p']\<rparr>, c')
                     else (''The card was successfully placed.'',
                           b'\<lparr>players := (players b')[pl := p']\<rparr>, c')))
           | (False, b', c') \<Rightarrow> (''The card could not be placed.'', b', c')))"

section \<open>Board: series of cards\<close>

text \<open>
  \<open>determineSeriesOfCards\<close> groups the placed cards in four JavaScript objects used as
  dictionaries: by \<open>x\<close>, by \<open>y\<close>, by \<open>x - y\<close> and by \<open>x + y\<close>. A dictionary is an
  association list in the order in which its keys were created. Adding a card first
  deletes from its group every card of the same cell (the backwards \<open>splice\<close> loop), then
  pushes the card, so a group keeps the card placed last on each cell.
\<close>

type_synonym groups = "(int \<times> card list) list"

definition sameCell :: "card \<Rightarrow> card \<Rightarrow> bool" where
  "sameCell cardInArray c = (card_x cardInArray = card_x c \<and> card_y cardInArray = card_y c)"

definition groupPush :: "int \<Rightarrow> card \<Rightarrow> groups \<Rightarrow> groups" where
  "groupPush k c g =
     (if k \<in> set (map fst g)
      then map (\<lambda>kv. if fst kv = k
                      then (fst kv, filter (\<lambda>d. \<not> sameCell d c) (snd kv) @ [c])
                      else kv) g
      else g @ [(k, [c])])"

definition groupsBy :: "(card \<Rightarrow> int) \<Rightarrow> card list \<Rightarrow> groups" where
  "groupsBy key cs = foldl (\<lambda>g c. groupPush (key c) c g) [] cs"

text \<open>
  \<open>for (const key in object)\<close> visits the keys that are array indices (the non-negative
  integers) in ascending order first, then the other keys (the negative integers) in the
  order of their creation.
\<close>

definition keyOrder :: "groups \<Rightarrow> groups" where
  "keyOrder g = sort_key fst (filter (\<lambda>kv. 0 \<le> fst kv) g) @ filter (\<lambda>kv. fst kv < 0) g"

text \<open>
  The scan of one column (\<open>co = card_y\<close>) or one row (\<open>co = card_x\<close>). The source keeps
  \<open>counter\<close> equal to \<open>series.length\<close>, so \<open>series[counter - 1]\<close> is the last card of
  \<open>series\<close>. What is left in \<open>series\<close> after the last card is not pushed.
\<close>

fun scanLine :: "(card \<Rightarrow> int) \<Rightarrow> nat \<Rightarrow> card list \<Rightarrow> card list \<Rightarrow> card list list" where
  "scanLine co len series [] = []"
| "scanLine co len series (c # cs) =
     (if length series = 0 then scanLine co len [c] cs
      else if co c = co (last series) + 1 \<and> color c = color (last series) then
        (if length (series @ [c]) \<ge> len
         then (series @ [c]) # scanLine co len [] cs
         else scanLine co len (series @ [c]) cs)
      else (if length series \<ge> len then [series] else []) @ scanLine co len [c] cs)"

definition isNextInDiagonal :: "card \<Rightarrow> card \<Rightarrow> bool \<Rightarrow> bool" where
  "isNextInDiagonal prevCard currentCard isLeftToRight =
     (if isLeftToRight
      then card_x currentCard = card_x prevCard + 1 \<and> card_y currentCard = card_y prevCard + 1
      else card_x currentCard = card_x prevCard + 1 \<and> card_y currentCard = card_y prevCard - 1)"

definition isSamePlayerAndColor :: "card \<Rightarrow> card \<Rightarrow> bool" where
  "isSamePlayerAndColor card1 card2 =
     (color card1 = color card2 \<and> playedBy card1 = playedBy card2)"

fun diagonalLoop :: "nat \<Rightarrow> bool \<Rightarrow> card list \<Rightarrow> card list \<Rightarrow> card list list" where
  "diagonalLoop len ltr tempSeries [] = (if length tempSeries \<ge> len then [tempSeries] else [])"
| "diagonalLoop len ltr tempSeries (c # cs) =
     (if length tempSeries = 0
         \<or> (isNextInDiagonal (last tempSeries) c ltr \<and> isSamePlayerAndColor (hd tempSeries) c)
      then diagonalLoop len ltr (tempSeries @ [c]) cs
      else (if length tempSeries \<ge> len then [tempSeries] else [])
           @ diagonalLoop len ltr [c] cs)"

definition findSeriesInDiagonal :: "card list \<Rightarrow> nat \<Rightarrow> bool \<Rightarrow> card list list" where
  "findSeriesInDiagonal cs len isLeftToRight = diagonalLoop len isLeftToRight [] cs"

definition determineSeriesOfCards :: "board \<Rightarrow> nat \<Rightarrow> card list list" where
  "determineSeriesOfCards b len =
     concat (map (\<lambda>kv. scanLine card_y len [] (sort_key card_y (snd kv)))
                 (keyOrder (groupsBy card_x (cards b))))
     @ concat (map (\<lambda>kv. scanLine card_x len [] (sort_key card_x (snd kv)))
                 (keyOrder (groupsBy card_y (cards b))))
     @ concat (map (\<lambda>kv. findSeriesInDiagonal (sort_key card_x (snd kv)) len True)
                 (keyOrder (groupsBy (\<lambda>c. card_x c - card_y c) (cards b))))
     @ concat (map (\<lambda>kv. findSeriesInDiagonal (sort_key card_x (snd kv)) len False)
                 (keyOrder (groupsBy (\<lambda>c. card_x c + card_y c) (cards b))))"

text \<open>
  The inner \<open>forEach\<close> of \<open>hasWinningSeries\<close> and of \<open>determineWinnerForBlockedGame\<close>:
  \<open>player\<close> is taken from the first card that has one; a \<open>return\<close> inside the callback
  only ends the visit of the current card; an entry is pushed at the card of index
  \<open>length - 1\<close> when that card was played by \<open>player\<close>.
\<close>

fun ownerLoop :: "nat \<Rightarrow> nat option \<Rightarrow> nat \<Rightarrow> card list \<Rightarrow> card list \<Rightarrow> (nat \<times> card list) list" where
  "ownerLoop len player index serie [] = []"
| "ownerLoop len player index serie (c # cs) =
     (case player of
        Some p \<Rightarrow>
          (if playedBy c \<noteq> Some p then ownerLoop len player (Suc index) serie cs
           else if int index = int len - 1
                then (p, serie) # ownerLoop len player (Suc index) serie cs
                else ownerLoop len player (Suc index) serie cs)
      | None \<Rightarrow> ownerLoop len (playedBy c) (Suc index) serie cs)"

definition playersWithPossibleWinningSeries :: "card list list \<Rightarrow> nat \<Rightarrow> (nat \<times> card list) list" where
  "playersWithPossibleWinningSeries seriesOfCards len =
     concat (map (\<lambda>series. ownerLoop len None 0 series series) seriesOfCards)"

definition hasWinningSeries :: "board \<Rightarrow> nat \<Rightarrow> nat option" where
  "hasWinningSeries b len =
     (let ps = playersWithPossibleWinningSeries (determineSeriesOfCards b len) len in
      if length ps = 1 then Some (fst (ps ! 0)) else None)"

section \<open>Board: blocked game\<close>

definition getPlayerTurn :: "board \<Rightarrow> nat option" where
  "getPlayerTurn b = List.find (\<lambda>i. isTurn (players b ! i)) [0..<length (players b)]"

definition isGameBlocked :: "board \<Rightarrow> bool" where
  "isGameBlocked b =
     (if boardIsFull b then True
      else (case getPlayerTurn b of
              None \<Rightarrow> False
            | Some playerWhoCantPlay \<Rightarrow>
                (case cardInHand (players b ! playerWhoCantPlay) of
                   Some _ \<Rightarrow> True
                 | None \<Rightarrow> False)))"

text \<open>
  The two "remove potential duplicates" loops: a \<open>forEach\<close> over the array that splices the
  array while it runs. \<open>forEach\<close> visits the indices below the initial length that still
  exist; the visited entry is the one now stored at that index. Every entry is an object
  of its own, so \<open>indexOf\<close> of the visited entry is the visited index.
\<close>

definition removeDuplicatesStep :: "nat list \<times> (nat \<times> 'a) list \<Rightarrow> nat \<Rightarrow> nat list \<times> (nat \<times> 'a) list" where
  "removeDuplicatesStep st k =
     (case st of (seen, arr) \<Rightarrow>
        if k < length arr then
          (if fst (arr ! k) \<notin> set seen then (fst (arr ! k) # seen, arr)
           else (seen, take k arr @ drop (Suc k) arr))
        else (seen, arr))"

definition removeDuplicates :: "(nat \<times> 'a) list \<Rightarrow> (nat \<times> 'a) list" where
  "removeDuplicates arr = snd (foldl removeDuplicatesStep ([], arr) [0..<length arr])"

text \<open>
  The number and the sum of values of the series that start with a card of the player:
  the source tests \<open>series[0].playedBy === player\<close>; a series is never empty.
\<close>

definition countSeriesOf :: "card list list \<Rightarrow> nat \<Rightarrow> int" where
  "countSeriesOf seriesOfCards p =
     foldl (\<lambda>count series. if playedBy (hd series) = Some p then count + 1 else count)
       0 seriesOfCards"

definition sumSeriesOf :: "card list list \<Rightarrow> nat \<Rightarrow> int" where
  "sumSeriesOf seriesOfCards p =
     foldl (\<lambda>sum series.
              if playedBy (hd series) = Some p
              then foldl (\<lambda>s c. s + cardValue c) sum series else sum)
       0 seriesOfCards"

text \<open>\<open>minSum\<close> starts at \<open>Infinity\<close>, which is \<open>None\<close> here.\<close>

definition minSumOf :: "card list list \<Rightarrow> (nat \<times> int) list \<Rightarrow> int option" where
  "minSumOf seriesOfCards ps =
     foldl (\<lambda>minSum playerWithCount.
              let sum = sumSeriesOf seriesOfCards (fst playerWithCount) in
              (case minSum of
                 None \<Rightarrow> Some sum
               | Some m \<Rightarrow> if sum < m then Some sum else Some m))
       None ps"

definition determineWinnerForBlockedGame :: "board \<Rightarrow> nat list" where
  "determineWinnerForBlockedGame b =
     (let seriesOfCards = determineSeriesOfCards b 3;
          possible = playersWithPossibleWinningSeries seriesOfCards 3
      in if length possible > 1 then
           (let countSeriesOfCards =
                  map (\<lambda>e. (fst e, countSeriesOf seriesOfCards (fst e))) possible;
                maxCount = foldl (\<lambda>m pc. if snd pc > m then snd pc else m) 0 countSeriesOfCards;
                playersWithMaxCount =
                  removeDuplicates (filter (\<lambda>pc. snd pc = maxCount) countSeriesOfCards)
            in if length playersWithMaxCount > 1 then
                 (let minSum = minSumOf seriesOfCards playersWithMaxCount;
                      playersWithMinSum =
                        removeDuplicates
                          (filter (\<lambda>pc. Some (sumSeriesOf seriesOfCards (fst pc)) = minSum)
                             playersWithMaxCount)
                  in map fst playersWithMinSum)
               else [fst (playersWithMaxCount ! 0)])
         else [])"

section \<open>Board: victory and end of game\<close>

text \<open>
  \<open>checkVictory\<close> returns the win type, the winners and the losers. \<open>losers\<close> starts as
  the array of all players.
\<close>

definition allPlayers :: "board \<Rightarrow> nat list" where
  "allPlayers b = [0..<length (players b)]"

definition checkVictory :: "board \<Rightarrow> WinType \<times> nat list \<times> nat list" where
  "checkVictory b =
     (case hasWinningSeries b (if nbrPlayers b = 2 then 5 else 4) of
        Some winner \<Rightarrow> (Win, [winner], filter (\<lambda>p. p \<notin> set [winner]) (allPlayers b))
      | None \<Rightarrow>
          if isGameBlocked b then
            (let ws = determineWinnerForBlockedGame b;
                 ls = filter (\<lambda>p. p \<notin> set ws) (allPlayers b)
             in (if length ws = 0 then Draw else Win, ws, ls))
          else (NoWin, [], allPlayers b))"

definition addPointsTo :: "nat list \<Rightarrow> int \<Rightarrow> player list \<Rightarrow> player list" where
  "addPointsTo ws pointsToAdd ps = foldl (\<lambda>qs w. qs[w := addPoints pointsToAdd (qs ! w)]) ps ws"

definition endGame :: "board \<Rightarrow> WinType \<Rightarrow> nat list \<Rightarrow> nat list \<Rightarrow> board" where
  "endGame b wt ws ls =
     (let b' = b\<lparr>winType := wt, losers := ls, winners := ws\<rparr> in
      if wt = Win then b'\<lparr>players := addPointsTo (winners b') 1 (players b')\<rparr> else b')"

definition isGameOver :: "board \<Rightarrow> bool" where
  "isGameOver b = (winType b \<noteq> NoWin)"

section \<open>Board: one turn\<close>

text \<open>
  What the outside world feeds into a turn is an explicit list of inputs, one per passage
  through the \<open>do ... while\<close> loop of \<open>doATurn\<close> on a non-empty board: the answer of the
  coordinate provider (\<open>askCoordinates\<close>; read only when the turn is not automatic) and
  the value that \<open>Math.floor(Math.random() * n)\<close> is derived from in
  \<open>determineCardCoordinates\<close>: the source computes some index below \<open>n\<close>, the model
  takes the input modulo \<open>n\<close>. \<open>Refusal\<close> is the provider's \<open>false\<close>; \<open>AutoPlay\<close> is
  an answer whose \<open>x\<close> or \<open>y\<close> is \<open>Infinity\<close>. The flag
  \<open>firstTimeToDemandeCoordinates\<close> only selects the prompt text and is left out, as is
  \<open>displayBoard\<close>, which only prints.
\<close>

datatype reply = Refusal | AutoPlay | Coords int int

type_synonym inputs = "(reply \<times> nat) list"

definition determineCardCoordinates :: "board \<Rightarrow> int \<Rightarrow> nat \<Rightarrow> Coordinates option" where
  "determineCardCoordinates b v r =
     (let available = availableCoordinates b v in
      if length available = 0 then None
      else Some (available ! (r mod length available)))"

text \<open>
  The \<open>do ... while (!cardCanBePlaced)\<close> loop. On an empty board the loop reads nothing and
  changes nothing, so if the test fails there it fails forever: \<open>Unfinished\<close>. On a
  non-empty board every passage consumes one input; \<open>Unfinished\<close> is also the result when
  the inputs run out before a legal cell or a refusal was given (the turn is still waiting).
\<close>

datatype loopResult = Placeable int int inputs | Refused inputs | Unfinished

fun coordinatesLoop :: "bool \<Rightarrow> board \<Rightarrow> card \<Rightarrow> int \<Rightarrow> int \<Rightarrow> inputs \<Rightarrow> loopResult" where
  "coordinatesLoop auto b c px py [] =
     (if boardIsEmpty b
      then (if cardCanBePlaced b c px py then Placeable px py [] else Unfinished)
      else Unfinished)"
| "coordinatesLoop auto b c px py (i # rest) =
     (if boardIsEmpty b
      then (if cardCanBePlaced b c px py then Placeable px py (i # rest) else Unfinished)
      else
        (let coordinates =
               (if auto then determineCardCoordinates b (cardValue c) (snd i)
                else (case fst i of
                        Refusal \<Rightarrow> None
                      | AutoPlay \<Rightarrow> determineCardCoordinates b (cardValue c) (snd i)
                      | Coords ax ay \<Rightarrow> Some (ax, ay)))
         in case coordinates of
              None \<Rightarrow> Refused rest
            | Some co \<Rightarrow>
                if cardCanBePlaced b c (fst co) (snd co) then Placeable (fst co) (snd co) rest
                else coordinatesLoop auto b c (fst co) (snd co) rest))"

text \<open>
  How one passage through the \<open>for\<close> loop over the players ends: it falls through to the
  next player (\<open>Continue\<close>), it returns from \<open>doATurn\<close> (\<open>Return\<close>), it throws
  (\<open>Throw\<close> with the message), or it never ends on the given inputs (\<open>Pending\<close>).
\<close>

datatype stepResult = Continue | Return | Throw string | Pending

definition finishGame :: "board \<Rightarrow> board" where
  "finishGame b =
     (case checkVictory b of (wt, ws, ls) \<Rightarrow> endGame b wt ws ls)"

text \<open>The part of the loop body after the draw: \<open>const card = player.cardInHand(); ...\<close>.\<close>

definition playHand :: "bool \<Rightarrow> board \<Rightarrow> nat \<Rightarrow> int \<Rightarrow> inputs \<Rightarrow> stepResult \<times> board \<times> inputs" where
  "playHand auto b pl playerTurn ins =
     (case cardInHand (players b ! pl) of
        None \<Rightarrow> (Throw ''The player does not have a card in hand.'', b, ins)
      | Some c \<Rightarrow>
          (case coordinatesLoop auto b c 0 0 ins of
             Unfinished \<Rightarrow> (Pending, b, [])
           | Refused rest \<Rightarrow> (Return, finishGame b, rest)
           | Placeable px py rest \<Rightarrow>
               (case playCard b pl playerTurn c px py of
                  (playResult, b', c') \<Rightarrow>
                    if playResult \<noteq> ''The card was successfully placed.''
                    then (Return, endGame b' Drop [] (allPlayers b'), rest)
                    else (case checkVictory b' of
                            (wt, ws, ls) \<Rightarrow>
                              if wt \<noteq> NoWin then (Return, endGame b' wt ws ls, rest)
                              else
                                (let p' = snd (removeCardFromHand (players b' ! pl))
                                 in (Continue,
                                     b'\<lparr>players := (players b')[pl := p'\<lparr>isTurn := False\<rparr>]\<rparr>,
                                     rest))))))"

definition playerStep :: "bool \<Rightarrow> board \<Rightarrow> nat \<Rightarrow> int \<Rightarrow> inputs \<Rightarrow> stepResult \<times> board \<times> inputs" where
  "playerStep auto b pl playerTurn ins =
     (let b1 = b\<lparr>players := (players b)[pl := (players b ! pl)\<lparr>isTurn := True\<rparr>]\<rparr> in
      case cardInHand (players b1 ! pl) of
        Some _ \<Rightarrow> (Throw ''The player already has a card in hand.'', b1, ins)
      | None \<Rightarrow>
          (case drawCard (players b1 ! pl) of
             (False, p') \<Rightarrow> (Return, finishGame b1, ins)
           | (True, p') \<Rightarrow>
               playHand auto (b1\<lparr>players := (players b1)[pl := p']\<rparr>) pl playerTurn ins))"

fun turnLoop :: "bool \<Rightarrow> nat list \<Rightarrow> board \<Rightarrow> inputs \<Rightarrow> stepResult \<times> board \<times> inputs" where
  "turnLoop auto [] b ins = (Continue, b, ins)"
| "turnLoop auto (pl # pls) b ins =
     (if isGameOver b then (Return, b, ins)
      else (case playerStep auto b pl (int pl) ins of
              (Continue, b', ins') \<Rightarrow> turnLoop auto pls b' ins'
            | (r, b', ins') \<Rightarrow> (r, b', ins')))"

text \<open>
  \<open>doATurn\<close>. Its result is how the call ended, the board as the call left it, and the
  inputs not yet consumed. After the loop the turn counter is advanced and the first
  player is given the turn.
\<close>

definition addTurn :: "board \<Rightarrow> board" where
  "addTurn b = b\<lparr>turn := turn b + 1\<rparr>"

definition doATurn :: "bool \<Rightarrow> board \<Rightarrow> inputs \<Rightarrow> stepResult \<times> board \<times> inputs" where
  "doATurn auto b ins =
     (if winType b \<noteq> NoWin then (Throw ''The game is already over.'', b, ins)
      else (case turnLoop auto [0..<length (players b)] b ins of
              (Continue, b', ins') \<Rightarrow>
                (let b'' = addTurn b' in
                 (Return, b''\<lparr>players := (players b'')[0 := (players b'' ! 0)\<lparr>isTurn := True\<rparr>]\<rparr>, ins'))
            | (r, b', ins') \<Rightarrow> (r, b', ins')))"

section \<open>Board: distribution, construction and reset\<close>

text \<open>
  \<open>Math.random\<close> is an ambient generator: \<open>rnd\<close> is the sequence of values it hands out
  and the counter \<open>k\<close> says how many were used. \<open>Math.floor(Math.random() * n)\<close> is an
  index below \<open>n\<close>; the model reads it off the next value modulo \<open>n\<close>.
\<close>

type_synonym random = "nat \<Rightarrow> nat"

fun shuffleLoop :: "random \<Rightarrow> nat \<Rightarrow> nat \<Rightarrow> card list \<Rightarrow> card list \<times> nat" where
  "shuffleLoop rnd k 0 d = (d, k)"
| "shuffleLoop rnd k (Suc i) d =
     (let j = rnd k mod (Suc i + 1) in
      shuffleLoop rnd (Suc k) i (d[Suc i := d ! j, j := d ! Suc i]))"

definition shuffleDeck :: "random \<Rightarrow> nat \<Rightarrow> player \<Rightarrow> player \<times> nat" where
  "shuffleDeck rnd k p =
     (case shuffleLoop rnd k (length (deck p) - 1) (deck p) of
        (d, k') \<Rightarrow> (p\<lparr>deck := d\<rparr>, k'))"

definition fillDeck :: "random \<Rightarrow> nat \<Rightarrow> card list \<Rightarrow> player \<Rightarrow> player \<times> nat" where
  "fillDeck rnd k cs p = shuffleDeck rnd k (p\<lparr>deck := deck p @ cs\<rparr>)"

definition colorNames :: "string list" where
  "colorNames = [''red'', ''blue'', ''green'', ''yellow'']"

definition numbers :: "int list" where
  "numbers = [1, 2, 3, 4, 5, 6, 7, 8, 9]"

text \<open>\<open>listCard\<close> as first built: for every colour twice each card from 1 to 9.\<close>

definition initialListCard :: "string \<Rightarrow> card list" where
  "initialListCard c =
     (if c \<in> set colorNames then concat (map (\<lambda>n. [newCard c n, newCard c n]) numbers) else [])"

text \<open>
  Picking a colour: \<open>colors[Math.floor(Math.random() * colors.length)]\<close>, then
  \<open>colors.splice(colors.indexOf(color), 1)\<close>. With no colour left the source reads
  \<open>undefined\<close>, and the \<open>fillDeck(listCard[undefined])\<close> that follows throws a
  \<open>TypeError\<close>; that is \<open>None\<close>. It does not happen with 2, 3 or 4 players.
\<close>

definition pickColor :: "random \<Rightarrow> nat \<Rightarrow> string list \<Rightarrow> (string \<times> string list) option" where
  "pickColor rnd k colors =
     (if colors = [] then None
      else (let c = colors ! (rnd k mod length colors) in Some (c, remove1 c colors)))"

text \<open>
  The three branches of \<open>cardDistribution\<close>, each a \<open>forEach\<close> over the players. The
  arguments are the generator, its counter, the colours still to give out, the dictionary
  \<open>listCard\<close> and the players; the results are the players, the colours left and the
  counter.
\<close>

fun distribute2 :: "random \<Rightarrow> nat \<Rightarrow> string list \<Rightarrow> (string \<Rightarrow> card list) \<Rightarrow> player list
    \<Rightarrow> (player list \<times> string list \<times> nat) option" where
  "distribute2 rnd k colors listCard [] = Some ([], colors, k)"
| "distribute2 rnd k colors listCard (p # ps) =
     (case pickColor rnd k colors of
        None \<Rightarrow> None
      | Some (color1, colors1) \<Rightarrow>
          (case pickColor rnd (k + 1) colors1 of
             None \<Rightarrow> None
           | Some (color2, colors2) \<Rightarrow>
               (case fillDeck rnd (k + 2) (listCard color1) (p\<lparr>playerColor := [color1, color2]\<rparr>) of
                  (p1, k1) \<Rightarrow>
                    (case fillDeck rnd k1 (listCard color2) p1 of
                       (p2, k2) \<Rightarrow>
                         (case distribute2 rnd k2 colors2 listCard ps of
                            None \<Rightarrow> None
                          | Some (ps', colors', k') \<Rightarrow> Some (p2 # ps', colors', k'))))))"

fun distribute4 :: "random \<Rightarrow> nat \<Rightarrow> string list \<Rightarrow> (string \<Rightarrow> card list) \<Rightarrow> player list
    \<Rightarrow> (player list \<times> string list \<times> nat) option" where
  "distribute4 rnd k colors listCard [] = Some ([], colors, k)"
| "distribute4 rnd k colors listCard (p # ps) =
     (case pickColor rnd k colors of
        None \<Rightarrow> None
      | Some (color1, colors1) \<Rightarrow>
          (case fillDeck rnd (k + 1) (listCard color1) (p\<lparr>playerColor := [color1]\<rparr>) of
             (p1, k1) \<Rightarrow>
               (case distribute4 rnd k1 colors1 listCard ps of
                  None \<Rightarrow> None
                | Some (ps', colors', k') \<Rightarrow> Some (p1 # ps', colors', k'))))"

text \<open>Three players, first loop: every player is given one colour.\<close>

fun assignColors :: "random \<Rightarrow> nat \<Rightarrow> string list \<Rightarrow> player list
    \<Rightarrow> (player list \<times> string list \<times> nat) option" where
  "assignColors rnd k colors [] = Some ([], colors, k)"
| "assignColors rnd k colors (p # ps) =
     (case pickColor rnd k colors of
        None \<Rightarrow> None
      | Some (color1, colors1) \<Rightarrow>
          (case assignColors rnd (k + 1) colors1 ps of
             None \<Rightarrow> None
           | Some (ps', colors', k') \<Rightarrow> Some (p\<lparr>playerColor := [color1]\<rparr> # ps', colors', k')))"

text \<open>
  Three players, second loop. \<open>drawRandomCards n\<close> is the inner \<open>for\<close> loop that moves
  \<open>n\<close> random cards out of \<open>listCard[lastColor]\<close>; the card objects are all distinct, so
  \<open>indexOf(randomCard)\<close> is the index that was drawn. With no card left the source would
  go on with \<open>undefined\<close>; that is \<open>None\<close> and does not happen, since the eighteen cards
  of the last colour are exactly three times six.
\<close>

fun drawRandomCards :: "nat \<Rightarrow> random \<Rightarrow> nat \<Rightarrow> card list \<Rightarrow> (card list \<times> card list \<times> nat) option" where
  "drawRandomCards 0 rnd k pool = Some ([], pool, k)"
| "drawRandomCards (Suc n) rnd k pool =
     (if pool = [] then None
      else (let j = rnd k mod length pool in
            case drawRandomCards n rnd (Suc k) (take j pool @ drop (Suc j) pool) of
              None \<Rightarrow> None
            | Some (drawn, pool', k') \<Rightarrow> Some (pool ! j # drawn, pool', k')))"

fun fillDecks :: "random \<Rightarrow> nat \<Rightarrow> card list list \<Rightarrow> player \<Rightarrow> player \<times> nat" where
  "fillDecks rnd k [] p = (p, k)"
| "fillDecks rnd k (cs # css) p =
     (case fillDeck rnd k cs p of (p1, k1) \<Rightarrow> fillDecks rnd k1 css p1)"

fun distribute3 :: "random \<Rightarrow> nat \<Rightarrow> string \<Rightarrow> (string \<Rightarrow> card list) \<Rightarrow> player list
    \<Rightarrow> (player list \<times> (string \<Rightarrow> card list) \<times> nat) option" where
  "distribute3 rnd k lastColor listCard [] = Some ([], listCard, k)"
| "distribute3 rnd k lastColor listCard (p # ps) =
     (case fillDecks rnd k (map listCard (playerColor p)) p of
        (p1, k1) \<Rightarrow>
          (case drawRandomCards 6 rnd k1 (listCard lastColor) of
             None \<Rightarrow> None
           | Some (listOf6RandomCards, pool', k2) \<Rightarrow>
               (case fillDeck rnd k2 listOf6RandomCards p1 of
                  (p2, k3) \<Rightarrow>
                    (case distribute3 rnd k3 lastColor (listCard(lastColor := pool')) ps of
                       None \<Rightarrow> None
                     | Some (ps', listCard', k') \<Rightarrow> Some (p2 # ps', listCard', k')))))"

definition cardDistribution :: "random \<Rightarrow> nat \<Rightarrow> player list \<Rightarrow> (player list \<times> nat) option" where
  "cardDistribution rnd k listPlayer =
     (if length listPlayer = 2 then
        (case distribute2 rnd k colorNames initialListCard listPlayer of
           None \<Rightarrow> None
         | Some (ps, colors, k') \<Rightarrow> Some (ps, k'))
      else if length listPlayer = 3 then
        (case assignColors rnd k colorNames listPlayer of
           None \<Rightarrow> None
         | Some (ps, colors, k1) \<Rightarrow>
             (case colors of
                [] \<Rightarrow> None
              | lastColor # _ \<Rightarrow>
                  (case distribute3 rnd k1 lastColor initialListCard ps of
                     None \<Rightarrow> None
                   | Some (ps', listCard', k') \<Rightarrow> Some (ps', k'))))
      else
        (case distribute4 rnd k colorNames initialListCard listPlayer of
           None \<Rightarrow> None
         | Some (ps, colors, k') \<Rightarrow> Some (ps, k')))"

text \<open>The constructor of \<open>Player\<close> and of \<open>Board\<close>.\<close>

record playerOptions =
  optName :: string
  optPoints :: "int option"
  optIsTurn :: "bool option"

definition newPlayer :: "playerOptions \<Rightarrow> player" where
  "newPlayer opts =
     \<lparr>name = optName opts, deck = [], hand = None,
      points = (case optPoints opts of None \<Rightarrow> 0 | Some v \<Rightarrow> v),
      isTurn = (case optIsTurn opts of None \<Rightarrow> False | Some t \<Rightarrow> t),
      playerColor = [], nbrFirstPlayer = 0\<rparr>"

definition randomizePlayerTurn :: "random \<Rightarrow> nat \<Rightarrow> player list \<Rightarrow> player list \<times> nat" where
  "randomizePlayerTurn rnd k ps =
     (let i = (rnd k mod 1000) mod length ps in (ps[i := (ps ! i)\<lparr>isTurn := True\<rparr>], Suc k))"

datatype error = InvalidNumberOfPlayers | TypeError

text \<open>
  \<open>new Board({nbrPlayers, listPlayerOptions})\<close>. Reading a missing entry of
  \<open>listPlayerOptions\<close> gives \<open>undefined\<close>, which the constructor of \<open>Player\<close> cannot
  destructure: a \<open>TypeError\<close>.
\<close>

definition newBoard :: "random \<Rightarrow> nat \<Rightarrow> nat \<Rightarrow> playerOptions list \<Rightarrow> error + (board \<times> nat)" where
  "newBoard rnd k nbr listPlayerOptions =
     (if nbr < 2 \<or> nbr > 4 then Inl InvalidNumberOfPlayers
      else if length listPlayerOptions < nbr then Inl TypeError
      else
        (let listPlayer = map newPlayer (take nbr listPlayerOptions);
             aPlayerHaveATurn = list_ex (\<lambda>opts. optIsTurn opts = Some True) (take nbr listPlayerOptions);
             pk = (if \<not> aPlayerHaveATurn then randomizePlayerTurn rnd k listPlayer
                   else (listPlayer, k))
         in case cardDistribution rnd (snd pk) (fst pk) of
              None \<Rightarrow> Inl TypeError
            | Some (ps, k') \<Rightarrow>
                Inr (\<lparr>cards = [], players = ps, turn = 0, winType = NoWin,
                      winners = [], losers = []\<rparr>, k')))"

text \<open>
  \<open>playerTurnByNbrFirstPlayer\<close>: the running pair is \<open>playerWithTurn\<close> and
  \<open>nbrFirstPlayer\<close>, where \<open>None\<close> is the initial \<open>Infinity\<close> (or \<open>-Infinity\<close> when
  \<open>byMax\<close>). The result is the selected player; the board has that player's \<open>isTurn\<close>
  set.
\<close>

definition selectStep :: "bool \<Rightarrow> player list \<Rightarrow> nat \<times> int option \<Rightarrow> nat \<Rightarrow> nat \<times> int option" where
  "selectStep byMax ps st i =
     (case snd st of
        None \<Rightarrow> (i, Some (nbrFirstPlayer (ps ! i)))
      | Some n \<Rightarrow>
          if byMax then (if nbrFirstPlayer (ps ! i) > n then (i, Some (nbrFirstPlayer (ps ! i))) else st)
          else (if nbrFirstPlayer (ps ! i) < n then (i, Some (nbrFirstPlayer (ps ! i))) else st))"

definition playerTurnByNbrFirstPlayer :: "board \<Rightarrow> bool \<Rightarrow> nat \<times> board" where
  "playerTurnByNbrFirstPlayer b byMax =
     (let playerWithTurn = fst (foldl (selectStep byMax (players b)) (0, None) [0..<length (players b)])
      in (playerWithTurn,
          b\<lparr>players := (players b)[playerWithTurn := (players b ! playerWithTurn)\<lparr>isTurn := True\<rparr>]\<rparr>))"

definition reset :: "random \<Rightarrow> nat \<Rightarrow> board \<Rightarrow> (board \<times> nat) option" where
  "reset rnd k b =
     (let b1 = b\<lparr>cards := [], players := map resetPlayer (players b), turn := 0, winType := NoWin\<rparr>
      in case playerTurnByNbrFirstPlayer b1 False of
           (playerWithTurn, b2) \<Rightarrow>
             (let p = players b2 ! playerWithTurn;
                  b3 = b2\<lparr>players := (players b2)[playerWithTurn := p\<lparr>nbrFirstPlayer := nbrFirstPlayer p + 1\<rparr>],
                          winners := [], losers := []\<rparr>
              in case cardDistribution rnd k (players b3) of
                   None \<Rightarrow> None
                 | Some (ps, k') \<Rightarrow> Some (b3\<lparr>players := ps\<rparr>, k')))"

section \<open>Notions used in the statements\<close>

text \<open>
  The extent of the bounding box of the placed cards on one axis once a card is added at
  coordinate \<open>v\<close>: the largest minus the smallest coordinate among the placed cards and
  the new one.
\<close>

definition extentAfter :: "int list \<Rightarrow> int \<Rightarrow> int" where
  "extentAfter vs v = Max (set (v # vs)) - Min (set (v # vs))"

text \<open>The setter \<open>hand\<close> of \<open>Player\<close>, applied to player number \<open>pl\<close> of the board.\<close>

definition setHand :: "board \<Rightarrow> nat \<Rightarrow> card \<Rightarrow> board" where
  "setHand b pl c = b\<lparr>players := (players b)[pl := (players b ! pl)\<lparr>hand := Some c\<rparr>]\<rparr>"

text \<open>
  All the cards of a game: the draw piles and the hands of the players, then the cards on
  the board. A card is counted by its colour and value.
\<close>

definition handCards :: "player \<Rightarrow> card list" where
  "handCards p = (case hand p of None \<Rightarrow> [] | Some c \<Rightarrow> [c])"

definition playerCards :: "player \<Rightarrow> card list" where
  "playerCards p = deck p @ handCards p"

definition allCards :: "board \<Rightarrow> card list" where
  "allCards b = concat (map playerCards (players b)) @ cards b"

definition cardKey :: "card \<Rightarrow> string \<times> int" where
  "cardKey c = (color c, cardValue c)"

definition keysOf :: "card list \<Rightarrow> (string \<times> int) multiset" where
  "keysOf cs = mset (map cardKey cs)"

definition deckKeys :: "player list \<Rightarrow> (string \<times> int) multiset" where
  "deckKeys ps = sum_list (map (\<lambda>p. keysOf (deck p)) ps)"

definition colorKeys :: "(string \<Rightarrow> card list) \<Rightarrow> string list \<Rightarrow> (string \<times> int) multiset" where
  "colorKeys listCard colors = sum_list (map (\<lambda>c. keysOf (listCard c)) colors)"

definition ownKeys :: "(string \<Rightarrow> card list) \<Rightarrow> player list \<Rightarrow> (string \<times> int) multiset" where
  "ownKeys listCard ps = sum_list (map (\<lambda>p. colorKeys listCard (playerColor p)) ps)"

definition poolKeys :: "(string \<times> int) multiset" where
  "poolKeys = colorKeys initialListCard colorNames"

text \<open>\<open>dealt p p'\<close>: \<open>p'\<close> is \<open>p\<close> up to the draw pile and the colours.\<close>

definition dealt :: "player \<Rightarrow> player \<Rightarrow> bool" where
  "dealt p p' = (name p' = name p \<and> hand p' = hand p \<and> points p' = points p
     \<and> isTurn p' = isTurn p \<and> nbrFirstPlayer p' = nbrFirstPlayer p)"

text \<open>
  The states a game goes through: a board comes out of the constructor, and from then on
  it is changed by \<open>doATurn\<close> and by \<open>reset\<close>. A call of \<open>doATurn\<close> counts however it
  ends: when it returns, when it throws, and when it is left waiting for the provider with
  the inputs used up, which shows the board in the middle of a turn, a drawn card in the
  hand of the player.
\<close>

inductive reachable :: "board \<Rightarrow> bool" where
  construct: "newBoard rnd k nbr listPlayerOptions = Inr (b, k') \<Longrightarrow> reachable b"
| turn: "reachable b \<Longrightarrow> doATurn auto b ins = (r, b', ins') \<Longrightarrow> reachable b'"
| reset: "reachable b \<Longrightarrow> reset rnd k b = Some (b', k') \<Longrightarrow> reachable b'"

text \<open>Shorthands for writing down concrete cards, players and boards.\<close>

definition placedCard :: "string \<Rightarrow> int \<Rightarrow> int \<Rightarrow> int \<Rightarrow> int \<Rightarrow> nat \<Rightarrow> card" where
  "placedCard c v px py t pl =
     \<lparr>color = c, cardValue = v, card_x = px, card_y = py,
      playedTurn = t, playedIn = int pl, playedBy = Some pl\<rparr>"

definition somePlayer :: "string \<Rightarrow> bool \<Rightarrow> card option \<Rightarrow> card list \<Rightarrow> player" where
  "somePlayer n t h d =
     \<lparr>name = n, deck = d, hand = h, points = 0, isTurn = t, playerColor = [],
      nbrFirstPlayer = 0\<rparr>"

definition someBoard :: "card list \<Rightarrow> player list \<Rightarrow> int \<Rightarrow> board" where
  "someBoard cs ps t =
     \<lparr>cards = cs, players = ps, turn = t, winType = NoWin, winners = [], losers = []\<rparr>"

definition boardKeys :: "board \<Rightarrow> (string \<times> int) multiset" where
  "boardKeys b = keysOf (allCards b)"

text \<open>A series of cards shown by colour, cell and player.\<close>

definition seriesView :: "card list list \<Rightarrow> (string \<times> int \<times> int \<times> nat option) list list" where
  "seriesView ss = map (map (\<lambda>c. (color c, card_x c, card_y c, playedBy c))) ss"

subsection \<open>Positions of a game of two players\<close>

text \<open>
  Player 0 (\<open>A\<close>) holds the red and the blue cards, player 1 (\<open>B\<close>) the green and the
  yellow ones. The cards of a position are listed in the order in which they were played;
  each position is reached from a fresh board by \<open>doATurn\<close> with a provider that answers
  these cells in this order. The draw piles are cut down to the cards drawn next; no
  function evaluated on these positions reads more of them.

  \<open>crossBoard\<close>: nine rounds are played, \<open>A\<close> has drawn a red 5 in the tenth.
  \<open>crossPlaced\<close> is the board once \<open>playCard\<close> has put that card on \<open>(0, 0)\<close>, and
  \<open>crossAfter\<close> the board when the step of \<open>A\<close> is over.
\<close>

definition crossCards :: "card list" where
  "crossCards =
     [placedCard ''blue'' 1 0 0 0 0,
      placedCard ''green'' 1 1 1 0 1,
      placedCard ''red'' 2 1 0 1 0,
      placedCard ''yellow'' 2 (-1) 1 1 1,
      placedCard ''red'' 3 (-1) 0 2 0,
      placedCard ''yellow'' 3 1 (-1) 2 1,
      placedCard ''red'' 4 2 0 3 0,
      placedCard ''green'' 4 (-1) (-1) 3 1,
      placedCard ''red'' 5 (-2) 0 4 0,
      placedCard ''yellow'' 5 2 1 4 1,
      placedCard ''red'' 6 0 1 5 0,
      placedCard ''green'' 6 (-2) 1 5 1,
      placedCard ''red'' 7 0 (-1) 6 0,
      placedCard ''green'' 7 2 (-1) 6 1,
      placedCard ''red'' 8 0 2 7 0,
      placedCard ''yellow'' 8 (-2) (-1) 7 1,
      placedCard ''red'' 9 0 (-2) 8 0,
      placedCard ''green'' 9 1 2 8 1]"

definition crossBoard :: board where
  "crossBoard =
     someBoard crossCards
       [somePlayer ''A'' True (Some (newCard ''red'' 5)) [newCard ''blue'' 2],
        somePlayer ''B'' False None [newCard ''yellow'' 9]] 9"

definition crossPlaced :: board where
  "crossPlaced =
     someBoard (crossCards @ [placedCard ''red'' 5 0 0 9 0])
       [somePlayer ''A'' True None [newCard ''blue'' 2],
        somePlayer ''B'' False None [newCard ''yellow'' 9]] 9"

definition crossAfter :: board where
  "crossAfter =
     someBoard (crossCards @ [placedCard ''red'' 5 0 0 9 0])
       [somePlayer ''A'' False None [newCard ''blue'' 2],
        somePlayer ''B'' False None [newCard ''yellow'' 9]] 9"

text \<open>
  \<open>blockBoard\<close>: nine rounds are played, it is the turn of \<open>A\<close>. \<open>blockDrawn\<close> is the
  board once \<open>A\<close> has drawn the blue 4, and \<open>blockAfter\<close> the board as \<open>doATurn\<close>
  leaves it when the provider refuses.
\<close>

definition blockCards :: "card list" where
  "blockCards =
     [placedCard ''red'' 1 0 0 0 0,
      placedCard ''green'' 1 (-1) 0 0 1,
      placedCard ''red'' 1 1 0 1 0,
      placedCard ''yellow'' 1 (-1) 1 1 1,
      placedCard ''red'' 2 2 0 2 0,
      placedCard ''yellow'' 2 3 0 2 1,
      placedCard ''red'' 2 0 1 3 0,
      placedCard ''green'' 2 3 1 3 1,
      placedCard ''red'' 3 1 1 4 0,
      placedCard ''green'' 3 (-1) 2 4 1,
      placedCard ''red'' 3 2 1 5 0,
      placedCard ''yellow'' 3 3 2 5 1,
      placedCard ''red'' 4 0 2 6 0,
      placedCard ''green'' 4 0 3 6 1,
      placedCard ''red'' 4 1 2 7 0,
      placedCard ''yellow'' 4 1 3 7 1,
      placedCard ''red'' 5 2 2 8 0,
      placedCard ''green'' 5 2 3 8 1]"

definition blockBoard :: board where
  "blockBoard =
     someBoard blockCards
       [somePlayer ''A'' True None [newCard ''blue'' 4],
        somePlayer ''B'' False None [newCard ''yellow'' 9]] 9"

definition blockDrawn :: board where
  "blockDrawn =
     someBoard blockCards
       [somePlayer ''A'' True (Some (newCard ''blue'' 4)) [],
        somePlayer ''B'' False None [newCard ''yellow'' 9]] 9"

definition blockAfter :: board where
  "blockAfter =
     \<lparr>cards = blockCards,
      players = [(somePlayer ''A'' True (Some (newCard ''blue'' 4)) [])\<lparr>points := 2\<rparr>,
                 somePlayer ''B'' False None [newCard ''yellow'' 9]],
      turn = 9, winType = Win, winners = [0, 0], losers = [1]\<rparr>"

text \<open>
  \<open>fullBoxBoard\<close>: eighteen rounds have filled the 36 cells of the box from \<open>(-2, -2)\<close>
  to \<open>(3, 3)\<close>; in the nineteenth round \<open>A\<close> has put a red 9 on the green 2 of
  \<open>(2, 0)\<close> and \<open>B\<close> has drawn a green 1.
\<close>

definition fullBoxCards :: "card list" where
  "fullBoxCards =
     [placedCard ''red'' 1 0 0 0 0,
      placedCard ''yellow'' 1 0 (-1) 0 1,
      placedCard ''red'' 1 1 0 1 0,
      placedCard ''green'' 2 (-1) 0 1 1,
      placedCard ''red'' 2 0 (-2) 2 0,
      placedCard ''yellow'' 1 0 1 2 1,
      placedCard ''blue'' 1 (-1) (-1) 3 0,
      placedCard ''yellow'' 2 1 (-1) 3 1,
      placedCard ''blue'' 1 (-1) 1 4 0,
      placedCard ''green'' 3 (-2) 0 4 1,
      placedCard ''red'' 2 0 2 5 0,
      placedCard ''green'' 2 2 0 5 1,
      placedCard ''red'' 3 1 (-2) 6 0,
      placedCard ''yellow'' 2 1 1 6 1,
      placedCard ''blue'' 2 (-2) (-1) 7 0,
      placedCard ''green'' 3 (-1) (-2) 7 1,
      placedCard ''blue'' 2 2 (-1) 8 0,
      placedCard ''green'' 4 3 0 8 1,
      placedCard ''blue'' 3 (-2) 1 9 0,
      placedCard ''green'' 4 (-1) 2 9 1,
      placedCard ''blue'' 3 2 1 10 0,
      placedCard ''yellow'' 3 0 3 10 1,
      placedCard ''red'' 3 1 2 11 0,
      placedCard ''green'' 5 (-2) (-2) 11 1,
      placedCard ''blue'' 4 3 (-1) 12 0,
      placedCard ''green'' 5 2 (-2) 12 1,
      placedCard ''blue'' 4 3 1 13 0,
      placedCard ''green'' 6 (-2) 2 13 1,
      placedCard ''blue'' 5 (-1) 3 14 0,
      placedCard ''green'' 6 2 2 14 1,
      placedCard ''blue'' 5 (-2) 3 15 0,
      placedCard ''yellow'' 3 1 3 15 1,
      placedCard ''blue'' 6 2 3 16 0,
      placedCard ''green'' 7 3 (-2) 16 1,
      placedCard ''blue'' 6 3 3 17 0,
      placedCard ''green'' 7 3 2 17 1,
      placedCard ''red'' 9 2 0 18 0]"

definition fullBoxBoard :: board where
  "fullBoxBoard =
     someBoard fullBoxCards
       [somePlayer ''A'' False None [newCard ''blue'' 7],
        somePlayer ''B'' True (Some (newCard ''green'' 1)) []] 18"

text \<open>
  \<open>refusalStart\<close>: one round is played, it is the turn of \<open>A\<close>. \<open>refusalBoard\<close> is
  the board once \<open>A\<close> has drawn the blue 4 in the second round, and \<open>refusalAfter\<close> the
  board as \<open>doATurn\<close> leaves it when the provider refuses.
\<close>

definition refusalStart :: board where
  "refusalStart =
     someBoard [placedCard ''red'' 1 0 0 0 0, placedCard ''green'' 2 1 0 0 1]
       [somePlayer ''A'' True None [newCard ''red'' 3, newCard ''blue'' 4],
        somePlayer ''B'' False None [newCard ''yellow'' 9]] 1"

definition refusalAfter :: board where
  "refusalAfter =
     \<lparr>cards = [placedCard ''red'' 1 0 0 0 0, placedCard ''green'' 2 1 0 0 1],
      players = [somePlayer ''A'' True (Some (newCard ''blue'' 4)) [newCard ''red'' 3],
                 somePlayer ''B'' False None [newCard ''yellow'' 9]],
      turn = 1, winType = Draw, winners = [], losers = [0, 1]\<rparr>"

definition refusalBoard :: board where
  "refusalBoard =
     someBoard [placedCard ''red'' 1 0 0 0 0, placedCard ''green'' 2 1 0 0 1]
       [somePlayer ''A'' True (Some (newCard ''blue'' 4)) [newCard ''red'' 3],
        somePlayer ''B'' False None [newCard ''yellow'' 9]] 1"

section \<open>Placement rules\<close>

text \<open>
  A cell is accepted for a value exactly when no placed card on it has at least that value;
  whatever \<open>availableCoordinates\<close> returns is accepted and within the limit of
  \<open>lineExceedsLimit\<close>; on a non-empty board \<open>cardCanBePlaced\<close> only answers true for a
  cell that \<open>availableCoordinates\<close> returns.
\<close>

lemma cellAccepts_foldl:
  "foldl (\<lambda>canPlaceCard cardOnBoard.
              if card_x cardOnBoard = fst co \<and> card_y cardOnBoard = snd co
              then (if cardValue cardOnBoard \<ge> v then False else canPlaceCard)
              else canPlaceCard) acc cs
   = (acc \<and> \<not> (\<exists>c\<in>set cs. card_x c = fst co \<and> card_y c = snd co \<and> cardValue c \<ge> v))"
  by (induction cs arbitrary: acc) auto

lemma cellAccepts_iff:
  "cellAccepts cs v co \<longleftrightarrow> \<not> (\<exists>c\<in>set cs. card_x c = fst co \<and> card_y c = snd co \<and> cardValue c \<ge> v)"
  unfolding cellAccepts_def by (simp add: cellAccepts_foldl)

lemma availableCoordinates_accepts:
  "co \<in> set (availableCoordinates b v) \<Longrightarrow> cellAccepts (cards b) v co"
  by (auto simp: availableCoordinates_def)

lemma availableCoordinates_limit:
  "co \<in> set (availableCoordinates b v) \<Longrightarrow> \<not> lineExceedsLimit b co 6"
  by (auto simp: availableCoordinates_def)

lemma cardCanBePlaced_available:
  "cardCanBePlaced b c px py \<Longrightarrow> cards b \<noteq> [] \<Longrightarrow> (px, py) \<in> set (availableCoordinates b (cardValue c))"
  by (auto simp: cardCanBePlaced_def boardIsEmpty_def Let_def list_ex_iff split: if_splits)

lemma cardCanBePlaced_limit:
  "cardCanBePlaced b c px py \<Longrightarrow> \<not> lineExceedsLimit b (px, py) 6"
  by (auto simp: cardCanBePlaced_def split: if_splits)

text \<open>
  Claim C5. On a board where the cell \<open>(px, py)\<close> already holds a placed card \<open>c'\<close> whose
  value is at least the value of the card \<open>c\<close> to place, \<open>cardCanBePlaced\<close> answers false
  for \<open>c\<close> at \<open>(px, py)\<close>, and \<open>(px, py)\<close> is not among
  \<open>availableCoordinates\<close> of the value of \<open>c\<close>.
\<close>

theorem C5_covered_cell_rejected:
  assumes "c' \<in> set (cards b)" and "card_x c' = px" and "card_y c' = py"
    and "cardValue c' \<ge> cardValue c"
  shows "\<not> cardCanBePlaced b c px py \<and> (px, py) \<notin> set (availableCoordinates b (cardValue c))"
proof -
  have "\<not> cellAccepts (cards b) (cardValue c) (px, py)"
    using assms by (auto simp: cellAccepts_iff)
  then have na: "(px, py) \<notin> set (availableCoordinates b (cardValue c))"
    using availableCoordinates_accepts by blast
  moreover have "cards b \<noteq> []" using assms(1) by auto
  ultimately show ?thesis using cardCanBePlaced_available by blast
qed

theorem C5_covered_cell_rejected_witness:
  "placedCard ''red'' 5 0 0 0 0 \<in> set (cards (someBoard [placedCard ''red'' 5 0 0 0 0] [] 0))
   \<and> card_x (placedCard ''red'' 5 0 0 0 0) = 0 \<and> card_y (placedCard ''red'' 5 0 0 0 0) = 0
   \<and> cardValue (placedCard ''red'' 5 0 0 0 0) \<ge> cardValue (newCard ''blue'' 3)
   \<and> \<not> cardCanBePlaced (someBoard [placedCard ''red'' 5 0 0 0 0] [] 0) (newCard ''blue'' 3) 0 0
   \<and> (0, 0) \<notin> set (availableCoordinates (someBoard [placedCard ''red'' 5 0 0 0 0] [] 0)
                         (cardValue (newCard ''blue'' 3)))"
  using C5_covered_cell_rejected [of "placedCard ''red'' 5 0 0 0 0"
      "someBoard [placedCard ''red'' 5 0 0 0 0] [] 0" 0 0 "newCard ''blue'' 3"]
  by (simp add: placedCard_def someBoard_def newCard_def)

text \<open>
  The four extremes that \<open>lineExceedsLimit\<close> computes enclose every placed card and the
  origin, so they enclose the bounding box of the placed cards.
\<close>

lemma boardExtremes_foldl:
  "foldl (\<lambda>e c. extremeStep e (card_x c, card_y c)) (maxX, minX, maxY, minY) cs = (a, b, c, d)
   \<Longrightarrow> maxX \<le> a \<and> b \<le> minX \<and> maxY \<le> c \<and> d \<le> minY
     \<and> (\<forall>k\<in>set cs. card_x k \<le> a \<and> b \<le> card_x k \<and> card_y k \<le> c \<and> d \<le> card_y k)"
proof (induction cs arbitrary: maxX minX maxY minY)
  case Nil
  then show ?case by simp
next
  case (Cons k ks)
  obtain a' b' c' d' where st: "extremeStep (maxX, minX, maxY, minY) (card_x k, card_y k) = (a', b', c', d')"
    by (metis prod_cases4)
  with Cons.prems have "foldl (\<lambda>e c. extremeStep e (card_x c, card_y c)) (a', b', c', d') ks = (a, b, c, d)"
    by simp
  from Cons.IH[OF this] st show ?case
    by (auto simp: extremeStep_def split: if_splits)
qed

lemma boardExtremes_bounds:
  assumes "boardExtremes cs = (a, b, c, d)"
  shows "0 \<le> a \<and> b \<le> 0 \<and> 0 \<le> c \<and> d \<le> 0
     \<and> (\<forall>k\<in>set cs. card_x k \<le> a \<and> b \<le> card_x k \<and> card_y k \<le> c \<and> d \<le> card_y k)"
  using boardExtremes_foldl[of 0 0 0 0 cs a b c d] assms unfolding boardExtremes_def by simp

lemma lineExceedsLimit_extent:
  assumes "extentAfter (map card_x (cards b)) px \<ge> 6 \<or> extentAfter (map card_y (cards b)) py \<ge> 6"
  shows "lineExceedsLimit b (px, py) 6"
proof -
  obtain a m c d where e: "boardExtremes (cards b) = (a, m, c, d)" by (metis prod_cases4)
  note bb = boardExtremes_bounds[OF e]
  obtain a' m' c' d' where e': "extremeStep (a, m, c, d) (px, py) = (a', m', c', d')" by (metis prod_cases4)
  have up: "a \<le> a' \<and> px \<le> a' \<and> m' \<le> m \<and> m' \<le> px \<and> c \<le> c' \<and> py \<le> c' \<and> d' \<le> d \<and> d' \<le> py"
    using e' by (auto simp: extremeStep_def split: if_splits)
  have X: "Max (set (px # map card_x (cards b))) \<le> a'" "m' \<le> Min (set (px # map card_x (cards b)))"
    using bb up by (auto intro!: Max.boundedI Min.boundedI) 
  have Y: "Max (set (py # map card_y (cards b))) \<le> c'" "d' \<le> Min (set (py # map card_y (cards b)))"
    using bb up by (auto intro!: Max.boundedI Min.boundedI) 
  have "a' - m' \<ge> 6 \<or> c' - d' \<ge> 6"
    using assms X Y unfolding extentAfter_def by linarith
  then have "distanceReached (extremeStep (a, m, c, d) (px, py)) 6"
    by (simp add: e' distanceReached_def)
  then show ?thesis by (simp add: lineExceedsLimit_def e Let_def)
qed

text \<open>
  Claim C6. For an in-bound cell \<open>(px, py)\<close> (\<open>|px| \<le> 5\<close>, \<open>|py| \<le> 5\<close>): if adding
  a card there makes the bounding box of all placed cards reach an extent of 6 or more on
  the x axis or on the y axis, then \<open>cardCanBePlaced\<close> answers false for every card at
  \<open>(px, py)\<close>, and \<open>(px, py)\<close> is in no \<open>availableCoordinates\<close>.
\<close>

theorem C6_bounding_box_rejected:
  assumes "\<bar>px\<bar> \<le> 5" and "\<bar>py\<bar> \<le> 5"
    and "extentAfter (map card_x (cards b)) px \<ge> 6 \<or> extentAfter (map card_y (cards b)) py \<ge> 6"
  shows "\<not> cardCanBePlaced b c px py \<and> (px, py) \<notin> set (availableCoordinates b v)"
  using lineExceedsLimit_extent[OF assms(3)] cardCanBePlaced_limit availableCoordinates_limit by blast

theorem C6_bounding_box_rejected_witness:
  "\<bar>3::int\<bar> \<le> 5 \<and> \<bar>0::int\<bar> \<le> 5
   \<and> (extentAfter (map card_x (cards (someBoard [placedCard ''red'' 5 (-3) 0 0 0] [] 0))) 3 \<ge> 6
      \<or> extentAfter (map card_y (cards (someBoard [placedCard ''red'' 5 (-3) 0 0 0] [] 0))) 0 \<ge> 6)
   \<and> \<not> cardCanBePlaced (someBoard [placedCard ''red'' 5 (-3) 0 0 0] [] 0) (newCard ''blue'' 7) 3 0
   \<and> (3, 0) \<notin> set (availableCoordinates (someBoard [placedCard ''red'' 5 (-3) 0 0 0] [] 0) 7)"
  using C6_bounding_box_rejected [of 3 0 "someBoard [placedCard ''red'' 5 (-3) 0 0 0] [] 0"
      "newCard ''blue'' 7" 7]
  by (simp add: placedCard_def someBoard_def extentAfter_def)

text \<open>
  Claim C8. When the hand of the player is empty, \<open>playCard\<close> returns the message that the
  player does not have the card in hand, and the board (its placed cards and every
  player's draw pile, hand and points) and the card argument are as before the call.
\<close>

theorem C8_empty_hand_no_change:
  assumes "hand (players b ! pl) = None"
  shows "playCard b pl playerTurn c px py = (''The player does not have the card in hand.'', b, c)"
  using assms by (simp add: playCard_def cardInHand_def)

theorem C8_empty_hand_no_change_witness:
  "hand (players (someBoard [] [somePlayer ''A'' True None [newCard ''red'' 2]] 0) ! 0) = None
   \<and> playCard (someBoard [] [somePlayer ''A'' True None [newCard ''red'' 2]] 0) 0 0
         (newCard ''red'' 4) 0 0
       = (''The player does not have the card in hand.'',
          someBoard [] [somePlayer ''A'' True None [newCard ''red'' 2]] 0, newCard ''red'' 4)"
  using C8_empty_hand_no_change [of "someBoard [] [somePlayer ''A'' True None [newCard ''red'' 2]] 0" 0
      0 "newCard ''red'' 4" 0 0]
  by (simp add: someBoard_def somePlayer_def)

section \<open>Distribution of the cards\<close>

text \<open>
  Shuffling permutes a draw pile. Each branch of \<open>cardDistribution\<close> hands out the cards
  of the colours it takes from \<open>colors\<close>, and for two, three and four players it takes
  them all: afterwards the draw piles hold the 72 cards of \<open>listCard\<close>, and nothing but
  the draw piles and the colours of the players has changed.
\<close>

lemma keysOf_append: "keysOf (xs @ ys) = keysOf xs + keysOf ys"
  by (simp add: keysOf_def)

lemma keysOf_mset_cong: "mset xs = mset ys \<Longrightarrow> keysOf xs = keysOf ys"
  unfolding keysOf_def by (metis mset_map)

lemma shuffleLoop_mset:
  "i < length d \<or> i = 0 \<Longrightarrow> mset (fst (shuffleLoop rnd k i d)) = mset d"
proof (induction i arbitrary: k d)
  case 0
  then show ?case by simp
next
  case (Suc i)
  then have len: "Suc i < length d" by simp
  define j where "j = rnd k mod (Suc i + 1)"
  have "j < Suc i + 1" unfolding j_def by simp
  then have jlt: "j < length d" using len by linarith
  let ?d = "d[Suc i := d ! j, j := d ! Suc i]"
  have m: "mset ?d = mset d" using mset_swap[OF jlt len] by simp
  have "i < length ?d \<or> i = 0" using len by simp
  from Suc.IH[OF this] have "mset (fst (shuffleLoop rnd (Suc k) i ?d)) = mset ?d" .
  then show ?case using m by (simp add: j_def Let_def)
qed

lemma shuffleDeck_eq:
  "\<exists>d. fst (shuffleDeck rnd k p) = p\<lparr>deck := d\<rparr> \<and> mset d = mset (deck p)"
proof -
  have "length (deck p) - 1 < length (deck p) \<or> length (deck p) - 1 = 0" by (cases "deck p") auto
  from shuffleLoop_mset[OF this, of rnd k]
  show ?thesis unfolding shuffleDeck_def by (auto split: prod.splits)
qed

lemma fillDeck_eq:
  "\<exists>d. fst (fillDeck rnd k cs p) = p\<lparr>deck := d\<rparr> \<and> mset d = mset (deck p) + mset cs"
  using shuffleDeck_eq[of rnd k "p\<lparr>deck := deck p @ cs\<rparr>"] unfolding fillDeck_def by auto

lemma fillDeck_cases:
  obtains d k' where "fillDeck rnd k cs p = (p\<lparr>deck := d\<rparr>, k')" "mset d = mset (deck p) + mset cs"
  using fillDeck_eq[of rnd k cs p] by (metis prod.collapse)

lemma pickColor_None: "pickColor rnd k colors = None \<longleftrightarrow> colors = []"
  by (simp add: pickColor_def Let_def)

lemma pickColor_Some:
  assumes "pickColor rnd k colors = Some (c, cs')"
  shows "mset colors = add_mset c (mset cs')" "length colors = Suc (length cs')" "c \<in> set colors"
proof -
  from assms have ne: "colors \<noteq> []" and c: "c = colors ! (rnd k mod length colors)" and cs: "cs' = remove1 c colors"
    by (auto simp: pickColor_def Let_def split: if_splits)
  show cin: "c \<in> set colors" using ne c by simp
  show "mset colors = add_mset c (mset cs')" using cin cs by simp
  have "0 < length colors" using ne by simp
  then show "length colors = Suc (length cs')" using cin cs by (simp add: length_remove1)
qed

lemma colorKeys_mset: "mset cs = mset cs' \<Longrightarrow> colorKeys lc cs = colorKeys lc cs'"
  unfolding colorKeys_def by (metis mset_map sum_mset_sum_list)

lemma colorKeys_pick:
  assumes "pickColor rnd k colors = Some (c, cs')"
  shows "colorKeys lc colors = keysOf (lc c) + colorKeys lc cs'"
proof -
  have "mset colors = mset (c # cs')" using pickColor_Some(1)[OF assms] by simp
  from colorKeys_mset[OF this] show ?thesis by (simp add: colorKeys_def)
qed

lemma distribute4_inv:
  "distribute4 rnd k colors lc ps = Some (ps', colors', k') \<Longrightarrow>
     list_all2 dealt ps ps' \<and> length colors = length colors' + length ps
     \<and> deckKeys ps' + colorKeys lc colors' = deckKeys ps + colorKeys lc colors"
proof (induction ps arbitrary: k colors ps' colors' k')
  case Nil
  then show ?case by (simp add: deckKeys_def)
next
  case (Cons p ps)
  from Cons.prems obtain c1 cs1 where pk: "pickColor rnd k colors = Some (c1, cs1)"
    by (auto split: option.splits)
  obtain d k1 where fd: "fillDeck rnd (k + 1) (lc c1) (p\<lparr>playerColor := [c1]\<rparr>) = (p\<lparr>playerColor := [c1], deck := d\<rparr>, k1)"
    and md: "mset d = mset (deck p) + mset (lc c1)"
    using fillDeck_cases[of rnd "k + 1" "lc c1" "p\<lparr>playerColor := [c1]\<rparr>"] by auto
  from Cons.prems pk fd obtain qs where rec: "distribute4 rnd k1 cs1 lc ps = Some (qs, colors', k')"
    and ps': "ps' = p\<lparr>playerColor := [c1], deck := d\<rparr> # qs"
    by (auto split: option.splits)
  note ih = Cons.IH[OF rec]
  have kd: "keysOf d = keysOf (deck p) + keysOf (lc c1)"
    using md by (simp add: keysOf_def)
  have "dealt p (p\<lparr>playerColor := [c1], deck := d\<rparr>)" unfolding dealt_def by simp
  moreover have "length colors = length colors' + length (p # ps)"
    using ih pickColor_Some(2)[OF pk] by simp
  moreover have "deckKeys ps' + colorKeys lc colors' = deckKeys (p # ps) + colorKeys lc colors"
    using ih kd colorKeys_pick[OF pk, of lc] by (simp add: ps' deckKeys_def ac_simps)
  ultimately show ?case using ih by (simp add: ps')
qed

lemma distribute4_defined:
  "length ps \<le> length colors \<Longrightarrow> distribute4 rnd k colors lc ps \<noteq> None"
proof (induction ps arbitrary: k colors)
  case Nil
  then show ?case by simp
next
  case (Cons p ps)
  then have "colors \<noteq> []" by auto
  then obtain c1 cs1 where pk: "pickColor rnd k colors = Some (c1, cs1)"
    using pickColor_None[of rnd k colors] by (cases "pickColor rnd k colors") auto
  have le: "length ps \<le> length cs1" using pickColor_Some(2)[OF pk] Cons.prems by simp
  obtain p1 k1 where fd: "fillDeck rnd (k + 1) (lc c1) (p\<lparr>playerColor := [c1]\<rparr>) = (p1, k1)"
    by (metis prod.collapse)
  from Cons.IH[OF le, of k1] show ?case using pk fd by (auto split: option.splits)
qed

lemma distribute2_inv:
  "distribute2 rnd k colors lc ps = Some (ps', colors', k') \<Longrightarrow>
     list_all2 dealt ps ps' \<and> length colors = length colors' + 2 * length ps
     \<and> deckKeys ps' + colorKeys lc colors' = deckKeys ps + colorKeys lc colors"
proof (induction ps arbitrary: k colors ps' colors' k')
  case Nil
  then show ?case by (simp add: deckKeys_def)
next
  case (Cons p ps)
  from Cons.prems obtain c1 cs1 where pk1: "pickColor rnd k colors = Some (c1, cs1)"
    by (auto split: option.splits)
  from Cons.prems pk1 obtain c2 cs2 where pk2: "pickColor rnd (k + 1) cs1 = Some (c2, cs2)"
    by (auto split: option.splits)
  let ?p0 = "p\<lparr>playerColor := [c1, c2]\<rparr>"
  obtain d1 k1 where fd1: "fillDeck rnd (k + 2) (lc c1) ?p0 = (?p0\<lparr>deck := d1\<rparr>, k1)"
    and md1: "mset d1 = mset (deck ?p0) + mset (lc c1)"
    using fillDeck_cases[of rnd "k + 2" "lc c1" ?p0] by blast
  let ?p1 = "?p0\<lparr>deck := d1\<rparr>"
  obtain d2 k2 where fd2: "fillDeck rnd k1 (lc c2) ?p1 = (?p1\<lparr>deck := d2\<rparr>, k2)"
    and md2: "mset d2 = mset (deck ?p1) + mset (lc c2)"
    using fillDeck_cases[of rnd k1 "lc c2" ?p1] by blast
  let ?p2 = "?p1\<lparr>deck := d2\<rparr>"
  from Cons.prems pk1 pk2 fd1 fd2 obtain qs where rec: "distribute2 rnd k2 cs2 lc ps = Some (qs, colors', k')"
    and ps': "ps' = ?p2 # qs"
    by (auto split: option.splits)
  note ih = Cons.IH[OF rec]
  have kd: "keysOf d2 = keysOf (deck p) + keysOf (lc c1) + keysOf (lc c2)"
    using md1 md2 by (simp add: keysOf_def)
  have "dealt p ?p2" unfolding dealt_def by simp
  moreover have "length colors = length colors' + 2 * length (p # ps)"
    using ih pickColor_Some(2)[OF pk1] pickColor_Some(2)[OF pk2] by simp
  moreover have "deckKeys ps' + colorKeys lc colors' = deckKeys (p # ps) + colorKeys lc colors"
    using ih kd colorKeys_pick[OF pk1, of lc] colorKeys_pick[OF pk2, of lc]
    by (simp add: ps' deckKeys_def ac_simps)
  ultimately show ?case using ih by (simp add: ps')
qed

lemma distribute2_defined:
  "2 * length ps \<le> length colors \<Longrightarrow> distribute2 rnd k colors lc ps \<noteq> None"
proof (induction ps arbitrary: k colors)
  case Nil
  then show ?case by simp
next
  case (Cons p ps)
  then have "colors \<noteq> []" by auto
  then obtain c1 cs1 where pk1: "pickColor rnd k colors = Some (c1, cs1)"
    using pickColor_None[of rnd k colors] by (cases "pickColor rnd k colors") auto
  have l1: "length colors = Suc (length cs1)" using pickColor_Some(2)[OF pk1] .
  then have "cs1 \<noteq> []" using Cons.prems by auto
  then obtain c2 cs2 where pk2: "pickColor rnd (k + 1) cs1 = Some (c2, cs2)"
    using pickColor_None[of rnd "k + 1" cs1] by (cases "pickColor rnd (k + 1) cs1") auto
  have le: "2 * length ps \<le> length cs2" using pickColor_Some(2)[OF pk2] l1 Cons.prems by simp
  obtain p1 k1 where fd1: "fillDeck rnd (k + 2) (lc c1) (p\<lparr>playerColor := [c1, c2]\<rparr>) = (p1, k1)"
    by (metis prod.collapse)
  obtain p2 k2 where fd2: "fillDeck rnd k1 (lc c2) p1 = (p2, k2)"
    by (metis prod.collapse)
  from Cons.IH[OF le, of k2] show ?case using pk1 pk2 fd1 fd2 by (auto split: option.splits)
qed

lemma assignColors_inv:
  "assignColors rnd k colors ps = Some (ps', colors', k') \<Longrightarrow>
     list_all2 (\<lambda>p p'. dealt p p' \<and> deck p' = deck p \<and> length (playerColor p') = 1) ps ps'
     \<and> length colors = length colors' + length ps
     \<and> mset colors = mset (concat (map playerColor ps')) + mset colors'"
proof (induction ps arbitrary: k colors ps' colors' k')
  case Nil
  then show ?case by simp
next
  case (Cons p ps)
  from Cons.prems obtain c1 cs1 where pk: "pickColor rnd k colors = Some (c1, cs1)"
    by (auto split: option.splits)
  from Cons.prems pk obtain qs where rec: "assignColors rnd (k + 1) cs1 ps = Some (qs, colors', k')"
    and ps': "ps' = p\<lparr>playerColor := [c1]\<rparr> # qs"
    by (auto split: option.splits)
  note ih = Cons.IH[OF rec]
  show ?case using ih pickColor_Some(1,2)[OF pk] by (simp add: ps' dealt_def)
qed

lemma assignColors_defined:
  "length ps \<le> length colors \<Longrightarrow> assignColors rnd k colors ps \<noteq> None"
proof (induction ps arbitrary: k colors)
  case Nil
  then show ?case by simp
next
  case (Cons p ps)
  then have "colors \<noteq> []" by auto
  then obtain c1 cs1 where pk: "pickColor rnd k colors = Some (c1, cs1)"
    using pickColor_None[of rnd k colors] by (cases "pickColor rnd k colors") auto
  have le: "length ps \<le> length cs1" using pickColor_Some(2)[OF pk] Cons.prems by simp
  from Cons.IH[OF le, of "k + 1"] show ?case using pk by (auto split: option.splits)
qed

lemma drawRandomCards_inv:
  "drawRandomCards n rnd k pool = Some (drawn, pool', k') \<Longrightarrow>
     mset drawn + mset pool' = mset pool \<and> length drawn = n"
proof (induction n arbitrary: k pool drawn pool' k')
  case 0
  then show ?case by simp
next
  case (Suc n)
  from Suc.prems have ne: "pool \<noteq> []" by (auto split: if_splits)
  define j where "j = rnd k mod length pool"
  have jlt: "j < length pool" using ne by (simp add: j_def)
  from Suc.prems ne obtain dr where rec: "drawRandomCards n rnd (Suc k) (take j pool @ drop (Suc j) pool) = Some (dr, pool', k')"
    and dr: "drawn = pool ! j # dr"
    by (auto simp: Let_def j_def split: option.splits)
  have "mset pool = add_mset (pool ! j) (mset (take j pool @ drop (Suc j) pool))"
    using jlt by (metis id_take_nth_drop mset.simps(2) mset_append union_mset_add_mset_right)
  with Suc.IH[OF rec] show ?case by (simp add: dr)
qed

lemma drawRandomCards_defined:
  "n \<le> length pool \<Longrightarrow> drawRandomCards n rnd k pool \<noteq> None"
proof (induction n arbitrary: k pool)
  case 0
  then show ?case by simp
next
  case (Suc n)
  then have ne: "pool \<noteq> []" by auto
  define j where "j = rnd k mod length pool"
  have jlt: "j < length pool" using ne by (simp add: j_def)
  have "n \<le> length (take j pool @ drop (Suc j) pool)" using Suc.prems jlt by simp
  from Suc.IH[OF this, of "Suc k"] show ?case using ne by (auto simp: Let_def j_def split: option.splits)
qed

lemma fillDecks_eq:
  "\<exists>d k'. fillDecks rnd k css p = (p\<lparr>deck := d\<rparr>, k') \<and> mset d = mset (deck p) + mset (concat css)"
proof (induction css arbitrary: k p)
  case Nil
  show ?case by (auto intro!: exI[of _ "deck p"])
next
  case (Cons cs css)
  obtain d1 k1 where fd: "fillDeck rnd k cs p = (p\<lparr>deck := d1\<rparr>, k1)" and md: "mset d1 = mset (deck p) + mset cs"
    using fillDeck_cases[of rnd k cs p] by blast
  from Cons.IH[of k1 "p\<lparr>deck := d1\<rparr>"] obtain d k' where
    "fillDecks rnd k1 css (p\<lparr>deck := d1\<rparr>) = (p\<lparr>deck := d1\<rparr>\<lparr>deck := d\<rparr>, k')" "mset d = mset d1 + mset (concat css)"
    by auto
  then show ?case using fd md by (auto intro!: exI[of _ d])
qed

lemma colorKeys_upd: "c \<notin> set cs \<Longrightarrow> colorKeys (lc(c := v)) cs = colorKeys lc cs"
  unfolding colorKeys_def by (induction cs) auto

lemma keysOf_concat: "keysOf (concat (map lc cs)) = colorKeys lc cs"
  unfolding colorKeys_def keysOf_def by (induction cs) auto

lemma ownKeys_upd:
  "\<forall>p\<in>set ps. c \<notin> set (playerColor p) \<Longrightarrow> ownKeys (lc(c := v)) ps = ownKeys lc ps"
  unfolding ownKeys_def by (induction ps) (auto simp: colorKeys_upd)

lemma distribute3_inv:
  "distribute3 rnd k lastColor lc ps = Some (ps', lc', k') \<Longrightarrow>
   \<forall>p\<in>set ps. lastColor \<notin> set (playerColor p) \<Longrightarrow>
     list_all2 dealt ps ps'
     \<and> length (lc lastColor) = length (lc' lastColor) + 6 * length ps
     \<and> deckKeys ps' + keysOf (lc' lastColor) = deckKeys ps + ownKeys lc ps + keysOf (lc lastColor)"
proof (induction ps arbitrary: k lc ps' lc' k')
  case Nil
  then show ?case by (simp add: deckKeys_def ownKeys_def)
next
  case (Cons p ps)
  obtain d1 k1 where fd1: "fillDecks rnd k (map lc (playerColor p)) p = (p\<lparr>deck := d1\<rparr>, k1)"
    and md1: "mset d1 = mset (deck p) + mset (concat (map lc (playerColor p)))"
    using fillDecks_eq[of rnd k "map lc (playerColor p)" p] by blast
  from Cons.prems(1) fd1 obtain six pool' k2 where
    dr: "drawRandomCards 6 rnd k1 (lc lastColor) = Some (six, pool', k2)"
    by (auto split: option.splits)
  let ?p1 = "p\<lparr>deck := d1\<rparr>"
  obtain d2 k3 where fd2: "fillDeck rnd k2 six ?p1 = (?p1\<lparr>deck := d2\<rparr>, k3)"
    and md2: "mset d2 = mset (deck ?p1) + mset six"
    using fillDeck_cases[of rnd k2 six ?p1] by blast
  let ?lc = "lc(lastColor := pool')"
  from Cons.prems(1) fd1 dr fd2 obtain qs where
    rec: "distribute3 rnd k3 lastColor ?lc ps = Some (qs, lc', k')"
    and ps': "ps' = ?p1\<lparr>deck := d2\<rparr> # qs"
    by (auto split: option.splits)
  have nl: "\<forall>q\<in>set ps. lastColor \<notin> set (playerColor q)" using Cons.prems(2) by simp
  note ih0 = Cons.IH[OF rec nl]
  have own: "ownKeys ?lc ps = ownKeys lc ps" using ownKeys_upd[OF nl] .
  have ih: "list_all2 dealt ps qs" "length pool' = length (lc' lastColor) + 6 * length ps"
    "deckKeys qs + keysOf (lc' lastColor) = deckKeys ps + ownKeys lc ps + keysOf pool'"
    using ih0 by (simp_all only: own fun_upd_same)
  note di = drawRandomCards_inv[OF dr]
  have "keysOf (six @ pool') = keysOf (lc lastColor)"
    by (rule keysOf_mset_cong) (simp add: di)
  then have ks: "keysOf six + keysOf pool' = keysOf (lc lastColor)"
    by (simp add: keysOf_append)
  have kd: "keysOf d2 = keysOf (deck p) + colorKeys lc (playerColor p) + keysOf six"
    using md1 md2 keysOf_concat[of lc "playerColor p"] by (simp add: keysOf_def)
  have "length (six @ pool') = length (lc lastColor)"
    by (rule mset_eq_length) (simp add: di)
  then have lens: "length (lc lastColor) = length pool' + 6"
    using di by simp
  have "dealt p (?p1\<lparr>deck := d2\<rparr>)" unfolding dealt_def by simp
  moreover have "length (lc lastColor) = length (lc' lastColor) + 6 * length (p # ps)"
    using ih lens by simp
  moreover have "deckKeys ps' + keysOf (lc' lastColor)
      = deckKeys (p # ps) + ownKeys lc (p # ps) + keysOf (lc lastColor)"
  proof -
    have "deckKeys ps' + keysOf (lc' lastColor) = keysOf d2 + (deckKeys qs + keysOf (lc' lastColor))"
      by (simp add: ps' deckKeys_def)
    also have "\<dots> = keysOf d2 + (deckKeys ps + ownKeys lc ps + keysOf pool')"
      using ih(3) by simp
    also have "\<dots> = keysOf (deck p) + colorKeys lc (playerColor p) + (keysOf six + keysOf pool')
        + deckKeys ps + ownKeys lc ps"
      by (simp add: kd ac_simps)
    also have "\<dots> = keysOf (deck p) + colorKeys lc (playerColor p) + keysOf (lc lastColor)
        + deckKeys ps + ownKeys lc ps"
      by (simp only: ks)
    also have "\<dots> = deckKeys (p # ps) + ownKeys lc (p # ps) + keysOf (lc lastColor)"
      by (simp add: deckKeys_def ownKeys_def ac_simps)
    finally show ?thesis .
  qed
  ultimately show ?case using ih by (simp add: ps')
qed

lemma distribute3_defined:
  "6 * length ps \<le> length (lc lastColor) \<Longrightarrow> distribute3 rnd k lastColor lc ps \<noteq> None"
proof (induction ps arbitrary: k lc)
  case Nil
  then show ?case by simp
next
  case (Cons p ps)
  obtain p1 k1 where fd1: "fillDecks rnd k (map lc (playerColor p)) p = (p1, k1)"
    by (metis prod.collapse)
  have "6 \<le> length (lc lastColor)" using Cons.prems by simp
  then obtain six pool' k2 where dr: "drawRandomCards 6 rnd k1 (lc lastColor) = Some (six, pool', k2)"
    using drawRandomCards_defined[of 6 "lc lastColor" rnd k1] by auto
  have "length (six @ pool') = length (lc lastColor)"
    by (rule mset_eq_length) (simp add: drawRandomCards_inv[OF dr])
  then have lens: "length (lc lastColor) = length pool' + 6"
    using drawRandomCards_inv[OF dr] by simp
  obtain p2 k3 where fd2: "fillDeck rnd k2 six p1 = (p2, k3)"
    by (metis prod.collapse)
  have "6 * length ps \<le> length ((lc(lastColor := pool')) lastColor)" using lens Cons.prems by simp
  then have "distribute3 rnd k3 lastColor (lc(lastColor := pool')) ps \<noteq> None" by (rule Cons.IH)
  then show ?case using fd1 dr fd2 by (auto split: option.splits)
qed

lemma length_initialListCard: "c \<in> set colorNames \<Longrightarrow> length (initialListCard c) = 18"
  by (simp add: initialListCard_def numbers_def)

lemma list_all2_dealt_trans:
  "list_all2 dealt ps qs \<Longrightarrow> list_all2 dealt qs rs \<Longrightarrow> list_all2 dealt ps rs"
  by (auto simp: list_all2_conv_all_nth dealt_def)

lemma colorKeys_append: "colorKeys lc (xs @ ys) = colorKeys lc xs + colorKeys lc ys"
  by (simp add: colorKeys_def)

lemma ownKeys_concat: "ownKeys lc ps = colorKeys lc (concat (map playerColor ps))"
  by (induction ps) (simp_all add: ownKeys_def colorKeys_append, simp add: colorKeys_def)

lemma deckKeys_same:
  "list_all2 (\<lambda>p p'. dealt p p' \<and> deck p' = deck p \<and> length (playerColor p') = 1) ps ps1
     \<Longrightarrow> deckKeys ps1 = deckKeys ps"
  by (induction rule: list_all2_induct) (auto simp: deckKeys_def)

lemma cardDistribution_ok:
  assumes n: "length ps = 2 \<or> length ps = 3 \<or> length ps = 4"
  shows "\<exists>ps' k'. cardDistribution rnd k ps = Some (ps', k') \<and> list_all2 dealt ps ps'
           \<and> deckKeys ps' = deckKeys ps + poolKeys"
proof -
  have lc4: "length colorNames = 4" by (simp add: colorNames_def)
  consider (two) "length ps = 2" | (three) "length ps = 3" | (four) "length ps = 4" using n by blast
  then show ?thesis
  proof cases
    case two
    have "distribute2 rnd k colorNames initialListCard ps \<noteq> None"
      using distribute2_defined[of ps colorNames] two lc4 by simp
    then obtain ps' cs' k' where d: "distribute2 rnd k colorNames initialListCard ps = Some (ps', cs', k')"
      by auto
    note inv = distribute2_inv[OF d]
    have "cs' = []" using inv two lc4 by simp
    then have "deckKeys ps' = deckKeys ps + poolKeys" using inv by (simp add: poolKeys_def colorKeys_def)
    then show ?thesis using d inv two by (simp add: cardDistribution_def)
  next
    case four
    have "distribute4 rnd k colorNames initialListCard ps \<noteq> None"
      using distribute4_defined[of ps colorNames] four lc4 by simp
    then obtain ps' cs' k' where d: "distribute4 rnd k colorNames initialListCard ps = Some (ps', cs', k')"
      by auto
    note inv = distribute4_inv[OF d]
    have "cs' = []" using inv four lc4 by simp
    then have "deckKeys ps' = deckKeys ps + poolKeys" using inv by (simp add: poolKeys_def colorKeys_def)
    then show ?thesis using d inv four by (simp add: cardDistribution_def)
  next
    case three
    have "assignColors rnd k colorNames ps \<noteq> None"
      using assignColors_defined[of ps colorNames] three lc4 by simp
    then obtain ps1 cs1 k1 where a: "assignColors rnd k colorNames ps = Some (ps1, cs1, k1)"
      by auto
    note ai = assignColors_inv[OF a]
    have len1: "length ps1 = 3" using ai three by (auto dest: list_all2_lengthD)
    have "length cs1 = 1" using ai three lc4 by simp
    then obtain lastColor where cs1: "cs1 = [lastColor]" by (cases cs1) auto
    have ms: "mset colorNames = mset (concat (map playerColor ps1)) + {#lastColor#}"
      using ai cs1 by simp
    have "distinct colorNames" by (simp add: colorNames_def)
    moreover have ms': "mset colorNames = mset (lastColor # concat (map playerColor ps1))"
      using ms by simp
    ultimately have "distinct (lastColor # concat (map playerColor ps1))"
      using mset_eq_imp_distinct_iff by blast
    then have notin: "\<forall>p\<in>set ps1. lastColor \<notin> set (playerColor p)" by auto
    have lastin: "lastColor \<in> set colorNames" using mset_eq_setD[OF ms'] by simp
    have l18: "length (initialListCard lastColor) = 18" using length_initialListCard[OF lastin] .
    have "distribute3 rnd k1 lastColor initialListCard ps1 \<noteq> None"
      using distribute3_defined[of ps1 initialListCard lastColor] len1 l18 by simp
    then obtain ps' lc' k' where d: "distribute3 rnd k1 lastColor initialListCard ps1 = Some (ps', lc', k')"
      by auto
    note di = distribute3_inv[OF d notin]
    have "length (lc' lastColor) = 0" using di len1 l18 by simp
    then have e: "keysOf (lc' lastColor) = {#}" by (simp add: keysOf_def)
    have decks: "deckKeys ps1 = deckKeys ps"
      by (rule deckKeys_same) (rule conjunct1[OF ai])
    have "ownKeys initialListCard ps1 + keysOf (initialListCard lastColor)
         = colorKeys initialListCard (lastColor # concat (map playerColor ps1))"
      by (simp add: ownKeys_concat colorKeys_def)
    also have "\<dots> = poolKeys" unfolding poolKeys_def
      by (rule colorKeys_mset) (simp add: ms')
    finally have pk: "ownKeys initialListCard ps1 + keysOf (initialListCard lastColor) = poolKeys" .
    have "deckKeys ps' = deckKeys ps + poolKeys"
      using di e decks pk by (simp add: ac_simps)
    moreover have "list_all2 dealt ps ps1" using ai by (auto elim: list_all2_mono)
    then have "list_all2 dealt ps ps'" using di list_all2_dealt_trans by blast
    ultimately show ?thesis using a d cs1 three by (simp add: cardDistribution_def)
  qed
qed

section \<open>Construction and reset\<close>

text \<open>
  The constructor succeeds for two, three and four players when it is given enough player
  options, and only then; its board has no placed card, empty hands and the 72 cards in
  the draw piles.
\<close>

lemma dealt_lists:
  assumes "list_all2 dealt ps ps'"
  shows "length ps' = length ps"
    and "\<And>j. j < length ps \<Longrightarrow> hand (ps' ! j) = hand (ps ! j) \<and> points (ps' ! j) = points (ps ! j)
           \<and> isTurn (ps' ! j) = isTurn (ps ! j) \<and> nbrFirstPlayer (ps' ! j) = nbrFirstPlayer (ps ! j)
           \<and> name (ps' ! j) = name (ps ! j)"
  using assms by (auto simp: list_all2_conv_all_nth dealt_def)

lemma deckKeys_empty: "\<forall>p\<in>set ps. deck p = [] \<Longrightarrow> deckKeys ps = {#}"
  by (induction ps) (auto simp: deckKeys_def keysOf_def)

lemma set_update_prop:
  "\<forall>p\<in>set ps. P p \<Longrightarrow> (i < length ps \<Longrightarrow> P q) \<Longrightarrow> \<forall>p\<in>set (ps[i := q]). P p"
proof (induction ps arbitrary: i)
  case Nil
  then show ?case by simp
next
  case (Cons a ps)
  then show ?case by (cases i) auto
qed

lemma newBoard_Inr:
  assumes "newBoard rnd k nbr opts = Inr (b, k')"
  shows "(nbr = 2 \<or> nbr = 3 \<or> nbr = 4) \<and> length (players b) = nbr \<and> cards b = []
     \<and> turn b = 0 \<and> winType b = NoWin \<and> winners b = [] \<and> losers b = []
     \<and> (\<forall>p\<in>set (players b). hand p = None) \<and> deckKeys (players b) = poolKeys"
proof -
  from assms have n: "nbr = 2 \<or> nbr = 3 \<or> nbr = 4" and len: "nbr \<le> length opts"
    by (auto simp: newBoard_def split: if_splits)
  define lp where "lp = map newPlayer (take nbr opts)"
  define pk where "pk = (if \<not> list_ex (\<lambda>opts. optIsTurn opts = Some True) (take nbr opts)
       then randomizePlayerTurn rnd k lp else (lp, k))"
  have llp: "length lp = nbr" using len by (simp add: lp_def)
  have lp0: "\<forall>p\<in>set lp. deck p = [] \<and> hand p = None" by (auto simp: lp_def newPlayer_def)
  have lpk: "length (fst pk) = nbr" using llp by (simp add: pk_def randomizePlayerTurn_def Let_def)
  have pk0: "\<forall>p\<in>set (fst pk). deck p = [] \<and> hand p = None"
  proof (cases "list_ex (\<lambda>opts. optIsTurn opts = Some True) (take nbr opts)")
    case True
    then show ?thesis using lp0 by (simp add: pk_def)
  next
    case False
    have "\<forall>p\<in>set (lp[i := (lp ! i)\<lparr>isTurn := True\<rparr>]). deck p = [] \<and> hand p = None" for i
      by (rule set_update_prop[OF lp0]) (use lp0 in simp)
    then show ?thesis using False by (simp add: pk_def randomizePlayerTurn_def Let_def)
  qed
  have "length (fst pk) = 2 \<or> length (fst pk) = 3 \<or> length (fst pk) = 4" using n lpk by simp
  from cardDistribution_ok[OF this, of rnd "snd pk"] obtain ps' k'' where
    cd: "cardDistribution rnd (snd pk) (fst pk) = Some (ps', k'')" and
    da: "list_all2 dealt (fst pk) ps'" and dk: "deckKeys ps' = deckKeys (fst pk) + poolKeys"
    by blast
  have b: "b = \<lparr>cards = [], players = ps', turn = 0, winType = NoWin, winners = [], losers = []\<rparr>"
    using assms n len cd unfolding newBoard_def Let_def lp_def[symmetric] pk_def[symmetric]
    by (auto split: if_splits)
  have "deckKeys (fst pk) = {#}" using pk0 by (simp add: deckKeys_empty)
  then have "deckKeys ps' = poolKeys" using dk by simp
  moreover have "\<forall>p\<in>set ps'. hand p = None"
    using dealt_lists[OF da] pk0 by (metis in_set_conv_nth nth_mem)
  moreover have "length ps' = nbr" using dealt_lists(1)[OF da] lpk by simp
  ultimately show ?thesis using n by (simp add: b)
qed

lemma newBoard_defined:
  assumes "2 \<le> nbr" "nbr \<le> 4" "nbr \<le> length opts"
  shows "\<exists>b k'. newBoard rnd k nbr opts = Inr (b, k')"
proof -
  define lp where "lp = map newPlayer (take nbr opts)"
  define pk where "pk = (if \<not> list_ex (\<lambda>opts. optIsTurn opts = Some True) (take nbr opts)
       then randomizePlayerTurn rnd k lp else (lp, k))"
  have llp: "length lp = nbr" using assms by (simp add: lp_def)
  have lpk: "length (fst pk) = nbr" using llp by (simp add: pk_def randomizePlayerTurn_def Let_def)
  have "length (fst pk) = 2 \<or> length (fst pk) = 3 \<or> length (fst pk) = 4" using assms lpk by auto
  from cardDistribution_ok[OF this, of rnd "snd pk"] obtain ps' k'' where
    cd: "cardDistribution rnd (snd pk) (fst pk) = Some (ps', k'')" by blast
  show ?thesis using assms cd unfolding newBoard_def Let_def lp_def[symmetric] pk_def[symmetric]
    by auto
qed

text \<open>
  The loop of \<open>playerTurnByNbrFirstPlayer\<close> selects a player whose \<open>nbrFirstPlayer\<close> is
  the least.
\<close>

lemma select_foldl:
  assumes "0 < n" "n \<le> length ps"
  shows "\<exists>i. foldl (selectStep False ps) (0, None) [0..<n] = (i, Some (nbrFirstPlayer (ps ! i)))
            \<and> i < n \<and> (\<forall>j<n. nbrFirstPlayer (ps ! i) \<le> nbrFirstPlayer (ps ! j))"
  using assms
proof (induction n)
  case 0
  then show ?case by simp
next
  case (Suc n)
  show ?case
  proof (cases "n = 0")
    case True
    then show ?thesis by (simp add: selectStep_def)
  next
    case False
    then obtain i where f: "foldl (selectStep False ps) (0, None) [0..<n] = (i, Some (nbrFirstPlayer (ps ! i)))"
      and i: "i < n" and m: "\<forall>j<n. nbrFirstPlayer (ps ! i) \<le> nbrFirstPlayer (ps ! j)"
      using Suc by auto
    show ?thesis
    proof (cases "nbrFirstPlayer (ps ! n) < nbrFirstPlayer (ps ! i)")
      case True
      then have "foldl (selectStep False ps) (0, None) [0..<Suc n] = (n, Some (nbrFirstPlayer (ps ! n)))"
        using f by (simp add: selectStep_def)
      moreover have "\<forall>j<Suc n. nbrFirstPlayer (ps ! n) \<le> nbrFirstPlayer (ps ! j)"
        using m True by (auto simp: less_Suc_eq)
      ultimately show ?thesis by auto
    next
      case False
      then have "foldl (selectStep False ps) (0, None) [0..<Suc n] = (i, Some (nbrFirstPlayer (ps ! i)))"
        using f by (simp add: selectStep_def)
      moreover have "\<forall>j<Suc n. nbrFirstPlayer (ps ! i) \<le> nbrFirstPlayer (ps ! j)"
        using m False by (auto simp: less_Suc_eq)
      ultimately show ?thesis using i by auto
    qed
  qed
qed

text \<open>
  Claim C9. On a board with two to four players, \<open>reset\<close> returns and leaves the board
  with no placed card, turn counter 0 and outcome \<open>None\<close>, every player with 0 points
  and an empty hand. There is one player \<open>i\<close> whose \<open>nbrFirstPlayer\<close> was minimal among
  all players before the call: the counter of \<open>i\<close> has grown by one and \<open>i\<close> has the
  turn; the counter of every other player is as before and they do not have the turn. No
  counter has decreased.
\<close>

theorem C9_reset:
  assumes "2 \<le> length (players b)" and "length (players b) \<le> 4"
  shows "\<exists>b' k' i. reset rnd k b = Some (b', k')
     \<and> cards b' = [] \<and> turn b' = 0 \<and> winType b' = NoWin
     \<and> length (players b') = length (players b)
     \<and> (\<forall>p\<in>set (players b'). points p = 0 \<and> hand p = None)
     \<and> i < length (players b)
     \<and> (\<forall>j<length (players b). nbrFirstPlayer (players b ! i) \<le> nbrFirstPlayer (players b ! j))
     \<and> nbrFirstPlayer (players b' ! i) = nbrFirstPlayer (players b ! i) + 1
     \<and> isTurn (players b' ! i)
     \<and> (\<forall>j<length (players b). j \<noteq> i \<longrightarrow>
            nbrFirstPlayer (players b' ! j) = nbrFirstPlayer (players b ! j) \<and> \<not> isTurn (players b' ! j))
     \<and> (\<forall>j<length (players b). nbrFirstPlayer (players b ! j) \<le> nbrFirstPlayer (players b' ! j))"
proof -
  define n where "n = length (players b)"
  define ps where "ps = map resetPlayer (players b)"
  define b1 where "b1 = b\<lparr>cards := [], players := ps, turn := 0, winType := NoWin\<rparr>"
  have lps: "length ps = n" by (simp add: ps_def n_def)
  have n2: "2 \<le> n" "n \<le> 4" using assms by (simp_all add: n_def)
  have psj: "\<And>j. j < n \<Longrightarrow> nbrFirstPlayer (ps ! j) = nbrFirstPlayer (players b ! j)
      \<and> points (ps ! j) = 0 \<and> hand (ps ! j) = None \<and> \<not> isTurn (ps ! j)"
    by (simp add: ps_def n_def resetPlayer_def)
  obtain i where f: "foldl (selectStep False ps) (0, None) [0..<n] = (i, Some (nbrFirstPlayer (ps ! i)))"
    and i: "i < n" and m: "\<forall>j<n. nbrFirstPlayer (ps ! i) \<le> nbrFirstPlayer (ps ! j)"
    using select_foldl[of n ps] n2 lps by auto
  define ps3 where "ps3 = ps[i := (ps ! i)\<lparr>isTurn := True, nbrFirstPlayer := nbrFirstPlayer (ps ! i) + 1\<rparr>]"
  have sel: "playerTurnByNbrFirstPlayer b1 False = (i, b1\<lparr>players := ps[i := (ps ! i)\<lparr>isTurn := True\<rparr>]\<rparr>)"
    using f lps by (simp add: playerTurnByNbrFirstPlayer_def b1_def Let_def)
  have l3: "length ps3 = n" by (simp add: ps3_def lps)
  have "length ps3 = 2 \<or> length ps3 = 3 \<or> length ps3 = 4" using n2 l3 by auto
  from cardDistribution_ok[OF this, of rnd k] obtain ps' k' where
    cd: "cardDistribution rnd k ps3 = Some (ps', k')" and da: "list_all2 dealt ps3 ps'"
    by blast
  define b' where "b' = b1\<lparr>players := ps', winners := [], losers := []\<rparr>"
  have r: "reset rnd k b = Some (b', k')"
    using sel cd i lps unfolding reset_def Let_def b1_def[symmetric] ps_def[symmetric]
    by (simp add: ps3_def b'_def)
  note dl = dealt_lists[OF da]
  have lp': "length ps' = n" using dl(1) l3 by simp
  have p3: "\<And>j. j < n \<Longrightarrow> points (ps3 ! j) = 0 \<and> hand (ps3 ! j) = None
      \<and> nbrFirstPlayer (ps3 ! j) = (if j = i then nbrFirstPlayer (players b ! j) + 1 else nbrFirstPlayer (players b ! j))
      \<and> isTurn (ps3 ! j) = (j = i)"
    using psj lps by (auto simp: ps3_def nth_list_update)
  have p': "\<And>j. j < n \<Longrightarrow> points (ps' ! j) = 0 \<and> hand (ps' ! j) = None
      \<and> nbrFirstPlayer (ps' ! j) = (if j = i then nbrFirstPlayer (players b ! j) + 1 else nbrFirstPlayer (players b ! j))
      \<and> isTurn (ps' ! j) = (j = i)"
    using dl(2) p3 l3 by simp
  have all: "\<forall>p\<in>set ps'. points p = 0 \<and> hand p = None"
    using p' lp' by (metis in_set_conv_nth)
  have mi: "\<forall>j<n. nbrFirstPlayer (players b ! i) \<le> nbrFirstPlayer (players b ! j)"
    using m psj i by simp
  show ?thesis
    apply (rule exI[of _ b'], rule exI[of _ k'], rule exI[of _ i])
    using r all i mi p' lp' by (simp add: b'_def b1_def n_def[symmetric])
qed

theorem C9_reset_witness:
  "2 \<le> length (players (someBoard [placedCard ''red'' 1 0 0 0 0]
           [somePlayer ''A'' True None [], somePlayer ''B'' False None []] 3))
   \<and> length (players (someBoard [placedCard ''red'' 1 0 0 0 0]
           [somePlayer ''A'' True None [], somePlayer ''B'' False None []] 3)) \<le> 4
   \<and> (\<exists>b' k' i. reset (\<lambda>n. n) 0 (someBoard [placedCard ''red'' 1 0 0 0 0]
           [somePlayer ''A'' True None [], somePlayer ''B'' False None []] 3) = Some (b', k')
     \<and> cards b' = [] \<and> turn b' = 0 \<and> winType b' = NoWin
     \<and> points (players b' ! 0) = 0 \<and> hand (players b' ! 0) = None
     \<and> i < 2 \<and> nbrFirstPlayer (players b' ! i) = 1 \<and> isTurn (players b' ! i))"
proof -
  let ?B = "someBoard [placedCard ''red'' 1 0 0 0 0]
           [somePlayer ''A'' True None [], somePlayer ''B'' False None []] 3"
  have h: "2 \<le> length (players ?B)" "length (players ?B) \<le> 4"
    by (simp_all add: someBoard_def)
  from C9_reset[OF h, of "\<lambda>n. n" 0] obtain b' k' i where
    r: "reset (\<lambda>n. n) 0 ?B = Some (b', k')" "cards b' = []" "turn b' = 0" "winType b' = NoWin"
      "length (players b') = length (players ?B)"
      "\<forall>p\<in>set (players b'). points p = 0 \<and> hand p = None"
      "i < length (players ?B)"
      "nbrFirstPlayer (players b' ! i) = nbrFirstPlayer (players ?B ! i) + 1"
      "isTurn (players b' ! i)"
    by blast
  have "i < 2" using r(7) by (simp add: someBoard_def)
  moreover have "nbrFirstPlayer (players ?B ! i) = 0"
    using \<open>i < 2\<close> by (cases i) (simp_all add: someBoard_def somePlayer_def)
  moreover have "players b' ! 0 \<in> set (players b')"
    using r(5) by (simp add: someBoard_def)
  ultimately show ?thesis using h r by auto
qed

lemma list_ex_coordinates:
  "list_ex (\<lambda>co. fst co = px \<and> snd co = py) xs \<longleftrightarrow> (px, py) \<in> set xs"
  by (force simp: list_ex_iff)

lemma cardCanBePlaced_empty: "cards b = [] \<Longrightarrow> cardCanBePlaced b c 0 0"
  by (simp add: cardCanBePlaced_def lineExceedsLimit_def boardExtremes_def distanceReached_def
      extremeStep_def boardIsEmpty_def)

lemma cardCanBePlaced_origin:
  assumes "cards b = [c']" "card_x c' = 0" "card_y c' = 0"
  shows "cardCanBePlaced b c 0 0 \<longleftrightarrow> cardValue c' < cardValue c"
proof -
  have lim: "\<not> lineExceedsLimit b co 6" if "\<bar>fst co\<bar> \<le> 1" "\<bar>snd co\<bar> \<le> 1" for co
    using that assms by (auto simp: lineExceedsLimit_def boardExtremes_def distanceReached_def
      extremeStep_def)
  have acc: "cellAccepts (cards b) (cardValue c) (0, 0) \<longleftrightarrow> cardValue c' < cardValue c"
    using assms by (auto simp: cellAccepts_iff)
  have in_av: "(0, 0) \<in> set (availableCoordinates b (cardValue c)) \<longleftrightarrow> cardValue c' < cardValue c"
    using assms acc lim[of "(0, 0)"] by (auto simp: availableCoordinates_def possibleCoordinates_def)
  have "cardCanBePlaced b c 0 0 \<longleftrightarrow> (0, 0) \<in> set (availableCoordinates b (cardValue c))"
    using assms lim[of "(0, 0)"]
    by (auto simp: cardCanBePlaced_def boardIsEmpty_def Let_def list_ex_coordinates)
  then show ?thesis using in_av by simp
qed

text \<open>
  Claim C7. On a board fresh from the constructor for two players: a player holding a
  card of value 3 plays it at \<open>(0, 0)\<close> and \<open>playCard\<close> answers that the card was
  successfully placed; the player then holds a card of value at most 3 and plays it at
  \<open>(0, 0)\<close>: \<open>playCard\<close> answers that the card could not be placed and changes nothing;
  the player then holds a card of value above 3 and plays it at \<open>(0, 0)\<close>: \<open>playCard\<close>
  answers that the card was successfully placed, and the board's list of cards holds the
  first card followed by this one, both at \<open>(0, 0)\<close>.
\<close>

theorem C7_stacking_scenario:
  assumes nb: "newBoard rnd k 2 opts = Inr (b, k')" and pl: "pl < 2"
    and v1: "cardValue c1 = 3" and v2: "cardValue c2 \<le> 3" and v3: "cardValue c3 > 3"
  shows "\<exists>b1 c1' b3 c3'.
      playCard (setHand b pl c1) pl t1 c1 0 0 = (''The card was successfully placed.'', b1, c1')
    \<and> cards b1 = [c1'] \<and> card_x c1' = 0 \<and> card_y c1' = 0 \<and> cardValue c1' = 3
    \<and> playCard (setHand b1 pl c2) pl t2 c2 0 0
        = (''The card could not be placed.'', setHand b1 pl c2, c2)
    \<and> playCard (setHand (setHand b1 pl c2) pl c3) pl t3 c3 0 0
        = (''The card was successfully placed.'', b3, c3')
    \<and> cards b3 = [c1', c3'] \<and> card_x c3' = 0 \<and> card_y c3' = 0 \<and> cardValue c3' = cardValue c3"
proof -
  have e: "cards b = []" and l: "length (players b) = 2" using newBoard_Inr[OF nb] by simp_all
  have pl': "pl < length (players b)" using pl l by simp
  define c1' where "c1' = c1\<lparr>card_x := 0, card_y := 0, playedTurn := turn b, playedIn := t1, playedBy := Some pl\<rparr>"
  define b1 where "b1 = b\<lparr>cards := [c1'], players := (players b)[pl := (players b ! pl)\<lparr>hand := None\<rparr>]\<rparr>"
  define c3' where "c3' = c3\<lparr>card_x := 0, card_y := 0, playedTurn := turn b, playedIn := t3, playedBy := Some pl\<rparr>"
  define b3 where "b3 = b\<lparr>cards := [c1', c3'], players := (players b)[pl := (players b ! pl)\<lparr>hand := None\<rparr>]\<rparr>"
  have p1: "cardCanBePlaced (setHand b pl c1) c1 0 0"
    by (rule cardCanBePlaced_empty) (simp add: setHand_def e)
  have s1: "playCard (setHand b pl c1) pl t1 c1 0 0 = (''The card was successfully placed.'', b1, c1')"
    using p1 pl' e by (simp add: playCard_def placeCard_def cardInHand_def removeCardFromHand_def
        setHand_def b1_def c1'_def Let_def)
  have cb1: "cards (setHand b1 pl c2) = [c1']" "cards (setHand (setHand b1 pl c2) pl c3) = [c1']"
    by (simp_all add: setHand_def b1_def)
  have o1: "card_x c1' = 0" "card_y c1' = 0" "cardValue c1' = 3" using v1 by (simp_all add: c1'_def)
  have p2: "\<not> cardCanBePlaced (setHand b1 pl c2) c2 0 0"
    using cardCanBePlaced_origin[OF cb1(1) o1(1,2), of c2] v2 o1(3) by simp
  have p3: "cardCanBePlaced (setHand (setHand b1 pl c2) pl c3) c3 0 0"
    using cardCanBePlaced_origin[OF cb1(2) o1(1,2), of c3] v3 o1(3) by simp
  have s2: "playCard (setHand b1 pl c2) pl t2 c2 0 0 = (''The card could not be placed.'', setHand b1 pl c2, c2)"
    using p2 pl' by (simp add: playCard_def placeCard_def cardInHand_def setHand_def b1_def)
  have s3: "playCard (setHand (setHand b1 pl c2) pl c3) pl t3 c3 0 0 = (''The card was successfully placed.'', b3, c3')"
    using p3 pl' by (simp add: playCard_def placeCard_def cardInHand_def removeCardFromHand_def
        Let_def setHand_def b1_def b3_def c3'_def)
  show ?thesis
    apply (rule exI[of _ b1], rule exI[of _ c1'], rule exI[of _ b3], rule exI[of _ c3'])
    using s1 s2 s3 o1 by (simp add: b1_def b3_def c3'_def)
qed

theorem C7_stacking_scenario_witness:
  "\<exists>b k'. newBoard (\<lambda>n. n) 0 2
        [\<lparr>optName = ''Player 1'', optPoints = Some 0, optIsTurn = Some True\<rparr>,
         \<lparr>optName = ''Player 2'', optPoints = Some 0, optIsTurn = Some False\<rparr>] = Inr (b, k')
    \<and> (0::nat) < 2 \<and> cardValue (newCard ''red'' 3) = 3 \<and> cardValue (newCard ''red'' 2) \<le> 3
    \<and> cardValue (newCard ''red'' 7) > 3
    \<and> (\<exists>b1 c1' b3 c3'.
          playCard (setHand b 0 (newCard ''red'' 3)) 0 0 (newCard ''red'' 3) 0 0
            = (''The card was successfully placed.'', b1, c1')
        \<and> cards b1 = [c1'] \<and> card_x c1' = 0 \<and> card_y c1' = 0 \<and> cardValue c1' = 3
        \<and> playCard (setHand b1 0 (newCard ''red'' 2)) 0 0 (newCard ''red'' 2) 0 0
            = (''The card could not be placed.'', setHand b1 0 (newCard ''red'' 2), newCard ''red'' 2)
        \<and> playCard (setHand (setHand b1 0 (newCard ''red'' 2)) 0 (newCard ''red'' 7)) 0 1
              (newCard ''red'' 7) 0 0
            = (''The card was successfully placed.'', b3, c3')
        \<and> cards b3 = [c1', c3'] \<and> card_x c3' = 0 \<and> card_y c3' = 0
        \<and> cardValue c3' = cardValue (newCard ''red'' 7))"
proof -
  obtain b k' where nb: "newBoard (\<lambda>n. n) 0 2
        [\<lparr>optName = ''Player 1'', optPoints = Some 0, optIsTurn = Some True\<rparr>,
         \<lparr>optName = ''Player 2'', optPoints = Some 0, optIsTurn = Some False\<rparr>] = Inr (b, k')"
    using newBoard_defined[of 2 _ "\<lambda>n. n" 0] by force
  have v: "cardValue (newCard ''red'' 3) = 3" "cardValue (newCard ''red'' 2) \<le> 3"
    "cardValue (newCard ''red'' 7) > 3" and z: "(0::nat) < 2"
    by (simp_all add: newCard_def)
  from C7_stacking_scenario[OF nb z v, of 0 0 1] nb v z show ?thesis by blast
qed

section \<open>Cards are neither lost nor created\<close>

text \<open>
  Counted by colour and value, the cards of the draw piles, the hands and the board are
  the same before and after each part of a turn: drawing moves the last card of the pile
  into the empty hand, \<open>playCard\<close> moves the card in hand onto the board, and ending the
  game touches the points only. The number of players never changes.
\<close>

lemma playerCards_update_keys:
  "i < length ps \<Longrightarrow>
     keysOf (concat (map playerCards (ps[i := q]))) + keysOf (playerCards (ps ! i))
       = keysOf (concat (map playerCards ps)) + keysOf (playerCards q)"
proof (induction ps arbitrary: i)
  case Nil
  then show ?case by simp
next
  case (Cons p ps)
  show ?case
  proof (cases i)
    case 0
    then show ?thesis by (simp add: keysOf_append ac_simps)
  next
    case (Suc j)
    then have "j < length ps" using Cons.prems by simp
    from Cons.IH[OF this] show ?thesis using Suc by (simp add: keysOf_append ac_simps)
  qed
qed

lemma playerCards_update_same:
  assumes "playerCards q = playerCards (ps ! i)"
  shows "map playerCards (ps[i := q]) = map playerCards ps"
proof (cases "i < length ps")
  case True
  then show ?thesis using assms by (simp add: map_update list_update_same_conv)
next
  case False
  then have "ps[i := q] = ps" by (intro list_update_beyond) simp
  then show ?thesis by simp
qed

lemma allCards_cong:
  "cards b' = cards b \<Longrightarrow> map playerCards (players b') = map playerCards (players b)
     \<Longrightarrow> allCards b' = allCards b"
  by (simp add: allCards_def)

lemma addPointsTo_cards:
  "map playerCards (addPointsTo ws n ps) = map playerCards ps \<and> length (addPointsTo ws n ps) = length ps"
  unfolding addPointsTo_def
proof (induction ws arbitrary: ps)
  case Nil
  show ?case by simp
next
  case (Cons w ws)
  have "playerCards (addPoints n (ps ! w)) = playerCards (ps ! w)"
    by (simp add: playerCards_def handCards_def addPoints_def)
  then have "map playerCards (ps[w := addPoints n (ps ! w)]) = map playerCards ps"
    by (rule playerCards_update_same)
  then show ?case using Cons.IH[of "ps[w := addPoints n (ps ! w)]"] by simp
qed

lemma endGame_cards:
  "allCards (endGame b wt ws ls) = allCards b \<and> length (players (endGame b wt ws ls)) = length (players b)"
  using addPointsTo_cards[of ws 1 "players b"]
  by (auto simp: endGame_def Let_def allCards_def)

lemma finishGame_cards:
  "allCards (finishGame b) = allCards b \<and> length (players (finishGame b)) = length (players b)"
  unfolding finishGame_def by (auto split: prod.splits simp: endGame_cards)

lemma playCard_keys:
  assumes "pl < length (players b)" and "hand (players b ! pl) = Some c"
    and "playCard b pl playerTurn c px py = (msg, b', c')"
  shows "boardKeys b' = boardKeys b \<and> length (players b') = length (players b)
     \<and> (msg = ''The card was successfully placed.'' \<longrightarrow> hand (players b' ! pl) = None)"
proof (cases "cardCanBePlaced b c px py")
  case False
  then show ?thesis using assms by (auto simp: playCard_def placeCard_def cardInHand_def)
next
  case True
  define c1 where "c1 = c\<lparr>card_x := px, card_y := py, playedTurn := turn b, playedIn := playerTurn,
                    playedBy := Some pl\<rparr>"
  define q where "q = (players b ! pl)\<lparr>hand := None\<rparr>"
  have b': "b' = b\<lparr>cards := cards b @ [c1], players := (players b)[pl := q]\<rparr>"
    using assms True by (auto simp: playCard_def placeCard_def cardInHand_def Let_def
        removeCardFromHand_def c1_def q_def)
  have k1: "keysOf [c1] = keysOf [c]" by (simp add: keysOf_def cardKey_def c1_def)
  have pc: "playerCards (players b ! pl) = playerCards q @ [c]"
    using assms(2) by (simp add: playerCards_def handCards_def q_def)
  have "keysOf (concat (map playerCards ((players b)[pl := q]))) + keysOf (playerCards q @ [c])
       = keysOf (concat (map playerCards (players b))) + keysOf (playerCards q)"
    using playerCards_update_keys[OF assms(1), of q] pc by simp
  then have "keysOf (concat (map playerCards ((players b)[pl := q]))) + keysOf [c]
       = keysOf (concat (map playerCards (players b)))"
    by (simp add: keysOf_append)
  then have "boardKeys b' = boardKeys b"
    using k1 by (simp add: boardKeys_def allCards_def b' keysOf_append ac_simps)
  moreover have "hand (players b' ! pl) = None" using assms(1) by (simp add: b' q_def)
  ultimately show ?thesis by (simp add: b')
qed

lemma playHand_keys:
  assumes "pl < length (players b)" and "playHand auto b pl playerTurn ins = (r, b', ins')"
  shows "boardKeys b' = boardKeys b \<and> length (players b') = length (players b)"
proof (cases "cardInHand (players b ! pl)")
  case None
  then show ?thesis using assms by (simp add: playHand_def)
next
  case (Some c)
  then have h: "hand (players b ! pl) = Some c" by (simp add: cardInHand_def)
  show ?thesis
  proof (cases "coordinatesLoop auto b c 0 0 ins")
    case Unfinished
    then show ?thesis using assms Some by (simp add: playHand_def)
  next
    case (Refused rest)
    then show ?thesis using assms Some finishGame_cards[of b]
      by (auto simp: playHand_def boardKeys_def)
  next
    case (Placeable px py rest)
    obtain msg b1 c1 where pc: "playCard b pl playerTurn c px py = (msg, b1, c1)"
      by (metis prod_cases3)
    note k = playCard_keys[OF assms(1) h pc]
    show ?thesis
    proof (cases "msg \<noteq> ''The card was successfully placed.''")
      case True
      then have "b' = endGame b1 Drop [] (allPlayers b1)"
        using assms Some Placeable pc by (simp add: playHand_def)
      then show ?thesis using k endGame_cards[of b1 Drop "[]" "allPlayers b1"]
        by (simp add: boardKeys_def)
    next
      case False
      obtain wt ws ls where cv: "checkVictory b1 = (wt, ws, ls)" by (metis prod_cases3)
      show ?thesis
      proof (cases "wt \<noteq> NoWin")
        case True
        then have "b' = endGame b1 wt ws ls"
          using assms Some Placeable pc False cv by (simp add: playHand_def)
        then show ?thesis using k endGame_cards[of b1 wt ws ls] by (simp add: boardKeys_def)
      next
        case nw: False
        define p' where "p' = snd (removeCardFromHand (players b1 ! pl))"
        have b': "b' = b1\<lparr>players := (players b1)[pl := p'\<lparr>isTurn := False\<rparr>]\<rparr>"
          using assms Some Placeable pc False cv nw by (simp add: playHand_def Let_def p'_def)
        have "hand (players b1 ! pl) = None" using k False by simp
        then have "p' = players b1 ! pl" by (simp add: p'_def removeCardFromHand_def)
        then have "playerCards (p'\<lparr>isTurn := False\<rparr>) = playerCards (players b1 ! pl)"
          by (simp add: playerCards_def handCards_def)
        then have "map playerCards (players b') = map playerCards (players b1)"
          unfolding b' by (simp add: playerCards_update_same)
        then have "allCards b' = allCards b1" by (intro allCards_cong) (simp_all add: b')
        then show ?thesis using k by (simp add: boardKeys_def b')
      qed
    qed
  qed
qed

lemma playerStep_keys:
  assumes "pl < length (players b)" and "playerStep auto b pl playerTurn ins = (r, b', ins')"
  shows "boardKeys b' = boardKeys b \<and> length (players b') = length (players b)"
proof -
  define b1 where "b1 = b\<lparr>players := (players b)[pl := (players b ! pl)\<lparr>isTurn := True\<rparr>]\<rparr>"
  have "playerCards ((players b ! pl)\<lparr>isTurn := True\<rparr>) = playerCards (players b ! pl)"
    by (simp add: playerCards_def handCards_def)
  then have "map playerCards (players b1) = map playerCards (players b)"
    unfolding b1_def by (simp add: playerCards_update_same)
  then have a1: "allCards b1 = allCards b" by (intro allCards_cong) (simp_all add: b1_def)
  have l1: "length (players b1) = length (players b)" by (simp add: b1_def)
  show ?thesis
  proof (cases "cardInHand (players b1 ! pl)")
    case (Some c)
    then have "b' = b1" using assms(2) unfolding playerStep_def Let_def b1_def[symmetric] by simp
    then show ?thesis using a1 l1 by (simp add: boardKeys_def)
  next
    case None
    show ?thesis
    proof (cases "deck (players b1 ! pl)")
      case Nil
      then have "b' = finishGame b1"
        using assms(2) None unfolding playerStep_def Let_def b1_def[symmetric]
        by (simp add: drawCard_def)
      then show ?thesis using a1 l1 finishGame_cards[of b1] by (simp add: boardKeys_def)
    next
      case (Cons d ds)
      define p' where "p' = (players b1 ! pl)\<lparr>deck := butlast (deck (players b1 ! pl)),
                            hand := Some (last (deck (players b1 ! pl)))\<rparr>"
      define b2 where "b2 = b1\<lparr>players := (players b1)[pl := p']\<rparr>"
      have ph: "playHand auto b2 pl playerTurn ins = (r, b', ins')"
        using assms(2) None Cons unfolding playerStep_def Let_def b1_def[symmetric]
        by (simp add: drawCard_def b2_def p'_def)
      have "hand (players b1 ! pl) = None" using None by (simp add: cardInHand_def)
      then have "playerCards p' = playerCards (players b1 ! pl)"
        using Cons by (simp add: playerCards_def handCards_def p'_def)
      then have "map playerCards (players b2) = map playerCards (players b1)"
        unfolding b2_def by (simp add: playerCards_update_same)
      then have a2: "allCards b2 = allCards b1" by (intro allCards_cong) (simp_all add: b2_def)
      have l2: "length (players b2) = length (players b)" using l1 by (simp add: b2_def)
      then have "pl < length (players b2)" using assms(1) by simp
      from playHand_keys[OF this ph] show ?thesis using a1 a2 l2 by (simp add: boardKeys_def)
    qed
  qed
qed

lemma turnLoop_keys:
  assumes "\<forall>pl\<in>set pls. pl < length (players b)" and "turnLoop auto pls b ins = (r, b', ins')"
  shows "boardKeys b' = boardKeys b \<and> length (players b') = length (players b)"
  using assms
proof (induction pls arbitrary: b ins)
  case Nil
  then show ?case by simp
next
  case (Cons pl pls)
  show ?case
  proof (cases "isGameOver b")
    case True
    then show ?thesis using Cons.prems by simp
  next
    case False
    obtain r1 b1 ins1 where ps: "playerStep auto b pl (int pl) ins = (r1, b1, ins1)"
      by (metis prod_cases3)
    have "pl < length (players b)" using Cons.prems(1) by simp
    note k = playerStep_keys[OF this ps]
    show ?thesis
    proof (cases "r1 = Continue")
      case True
      then have tl: "turnLoop auto pls b1 ins1 = (r, b', ins')"
        using Cons.prems(2) False ps by simp
      have "\<forall>q\<in>set pls. q < length (players b1)" using Cons.prems(1) k by simp
      from Cons.IH[OF this tl] k show ?thesis by simp
    next
      case nc: False
      then have "b' = b1" using Cons.prems(2) False ps by (cases r1) simp_all
      then show ?thesis using k by simp
    qed
  qed
qed

lemma doATurn_keys:
  assumes "doATurn auto b ins = (r, b', ins')"
  shows "boardKeys b' = boardKeys b \<and> length (players b') = length (players b)"
proof (cases "winType b \<noteq> NoWin")
  case True
  then show ?thesis using assms by (simp add: doATurn_def)
next
  case False
  obtain r1 b1 ins1 where tl: "turnLoop auto [0..<length (players b)] b ins = (r1, b1, ins1)"
    by (metis prod_cases3)
  have "\<forall>pl\<in>set [0..<length (players b)]. pl < length (players b)" by simp
  note k = turnLoop_keys[OF this tl]
  show ?thesis
  proof (cases "r1 = Continue")
    case True
    define b2 where "b2 = addTurn b1"
    have b': "b' = b2\<lparr>players := (players b2)[0 := (players b2 ! 0)\<lparr>isTurn := True\<rparr>]\<rparr>"
      using assms False tl True by (simp add: doATurn_def Let_def b2_def)
    have "playerCards ((players b2 ! 0)\<lparr>isTurn := True\<rparr>) = playerCards (players b2 ! 0)"
      by (simp add: playerCards_def handCards_def)
    then have "map playerCards (players b') = map playerCards (players b2)"
      unfolding b' by (simp add: playerCards_update_same)
    then have "allCards b' = allCards b2" by (intro allCards_cong) (simp_all add: b')
    moreover have "allCards b2 = allCards b1" by (simp add: b2_def addTurn_def allCards_def)
    ultimately show ?thesis using k by (simp add: boardKeys_def b' b2_def addTurn_def)
  next
    case nc: False
    then have "b' = b1" using assms False tl by (cases r1) (simp_all add: doATurn_def)
    then show ?thesis using k by simp
  qed
qed

lemma count_keysOf:
  "count (keysOf cs) (c, v) = length (filter (\<lambda>k. color k = c \<and> cardValue k = v) cs)"
  by (induction cs) (auto simp: keysOf_def cardKey_def)

lemma size_keysOf: "size (keysOf cs) = length cs"
  by (simp add: keysOf_def)

lemma poolKeys_list:
  "poolKeys = keysOf (concat (map initialListCard colorNames))"
  by (simp add: poolKeys_def colorKeys_def colorNames_def keysOf_append)

lemma size_poolKeys: "size poolKeys = 72"
  by (simp add: poolKeys_list size_keysOf colorNames_def initialListCard_def numbers_def)

lemma count_initialListCard:
  "c' \<in> set colorNames \<Longrightarrow> v \<in> set numbers \<Longrightarrow>
     length (filter (\<lambda>k. color k = c \<and> cardValue k = v) (initialListCard c')) = (if c' = c then 2 else 0)"
  by (auto simp: initialListCard_def numbers_def newCard_def)

lemma count_poolKeys:
  assumes "c \<in> set colorNames" "v \<in> set numbers"
  shows "count poolKeys (c, v) = 2"
proof -
  have "count poolKeys (c, v)
      = (\<Sum>c'\<leftarrow>colorNames. length (filter (\<lambda>k. color k = c \<and> cardValue k = v) (initialListCard c')))"
    by (simp add: poolKeys_def colorKeys_def colorNames_def count_keysOf)
  also have "\<dots> = (\<Sum>c'\<leftarrow>colorNames. if c' = c then 2 else 0)"
    by (rule arg_cong[where f=sum_list], rule map_cong) (simp_all add: count_initialListCard assms(2))
  also have "\<dots> = 2" using assms(1) by (auto simp: colorNames_def)
  finally show ?thesis .
qed

lemma boardKeys_decks:
  assumes "cards b = []" and "\<forall>p\<in>set (players b). hand p = None"
  shows "boardKeys b = deckKeys (players b)"
proof -
  have "keysOf (concat (map playerCards ps)) = deckKeys ps" if "\<forall>p\<in>set ps. hand p = None" for ps
    using that by (induction ps) (auto simp: deckKeys_def keysOf_append playerCards_def handCards_def keysOf_def)
  then show ?thesis using assms by (simp add: boardKeys_def allCards_def)
qed

lemma reset_keys:
  assumes n: "length (players b) = 2 \<or> length (players b) = 3 \<or> length (players b) = 4"
    and r: "reset rnd k b = Some (b', k')"
  shows "boardKeys b' = poolKeys \<and> length (players b') = length (players b)"
proof -
  define ps where "ps = map resetPlayer (players b)"
  define b1 where "b1 = b\<lparr>cards := [], players := ps, turn := 0, winType := NoWin\<rparr>"
  obtain i b2 where sel: "playerTurnByNbrFirstPlayer b1 False = (i, b2)" by (metis prod.collapse)
  then have b2: "b2 = b1\<lparr>players := ps[i := (ps ! i)\<lparr>isTurn := True\<rparr>]\<rparr>"
    by (auto simp: playerTurnByNbrFirstPlayer_def Let_def b1_def)
  define ps3 where "ps3 = (players b2)[i := (players b2 ! i)\<lparr>nbrFirstPlayer := nbrFirstPlayer (players b2 ! i) + 1\<rparr>]"
  have ps0: "\<forall>p\<in>set ps. deck p = [] \<and> hand p = None" by (auto simp: ps_def resetPlayer_def)
  have ps20: "\<forall>p\<in>set (players b2). deck p = [] \<and> hand p = None"
    unfolding b2 using ps0 by (simp add: b1_def) (rule set_update_prop, simp_all)
  have ps30: "\<forall>p\<in>set ps3. deck p = [] \<and> hand p = None"
    unfolding ps3_def using ps20 by (intro set_update_prop) simp_all
  have l3: "length ps3 = length (players b)" by (simp add: ps3_def b2 b1_def ps_def)
  then have "length ps3 = 2 \<or> length ps3 = 3 \<or> length ps3 = 4" using n by simp
  from cardDistribution_ok[OF this, of rnd k] obtain ps' k'' where
    cd: "cardDistribution rnd k ps3 = Some (ps', k'')" and da: "list_all2 dealt ps3 ps'"
    and dk: "deckKeys ps' = deckKeys ps3 + poolKeys"
    by blast
  have b': "b' = b2\<lparr>players := ps', winners := [], losers := []\<rparr>"
    using r sel cd unfolding reset_def Let_def b1_def[symmetric] ps_def[symmetric]
    by (auto simp: ps3_def)
  have "deckKeys ps3 = {#}" using ps30 by (simp add: deckKeys_empty)
  then have "deckKeys ps' = poolKeys" using dk by simp
  moreover have "\<forall>p\<in>set ps'. hand p = None"
    using dealt_lists[OF da] ps30 by (metis in_set_conv_nth nth_mem)
  moreover have "cards b' = []" by (simp add: b' b2 b1_def)
  ultimately have "boardKeys b' = poolKeys" using boardKeys_decks[of b'] by (simp add: b')
  moreover have "length (players b') = length (players b)"
    using dealt_lists(1)[OF da] l3 by (simp add: b')
  ultimately show ?thesis by simp
qed

lemma reachable_keys:
  "reachable b \<Longrightarrow>
     (length (players b) = 2 \<or> length (players b) = 3 \<or> length (players b) = 4)
     \<and> boardKeys b = poolKeys"
proof (induction rule: reachable.induct)
  case (construct rnd k nbr listPlayerOptions b k')
  from newBoard_Inr[OF this] boardKeys_decks[of b] show ?case by auto
next
  case (turn b auto ins r b' ins')
  from doATurn_keys[OF turn.hyps(2)] turn.IH show ?case by simp
next
  case (reset b rnd k b' k')
  from reset_keys[OF _ reset.hyps(2)] reset.IH show ?case by simp
qed

text \<open>
  Claim C4. In every state that a game of two, three or four players goes through, from
  the constructor on and across every \<open>doATurn\<close> and \<open>reset\<close>, the draw piles, the hands
  and the board hold 72 cards together, and for each of the four colours and each value
  from 1 to 9 exactly two of them have that colour and that value.
\<close>

theorem C4_card_count:
  assumes "reachable b"
  shows "(length (players b) = 2 \<or> length (players b) = 3 \<or> length (players b) = 4)
     \<and> length (allCards b) = 72
     \<and> (\<forall>c\<in>set colorNames. \<forall>v\<in>set numbers.
           length (filter (\<lambda>k. color k = c \<and> cardValue k = v) (allCards b)) = 2)"
proof -
  note k = reachable_keys[OF assms]
  have "size (boardKeys b) = 72" using k size_poolKeys by simp
  then have "length (allCards b) = 72" by (simp add: boardKeys_def size_keysOf)
  moreover have "length (filter (\<lambda>k. color k = c \<and> cardValue k = v) (allCards b)) = 2"
    if "c \<in> set colorNames" "v \<in> set numbers" for c v
    using count_poolKeys[OF that] k count_keysOf[of "allCards b" c v] by (simp add: boardKeys_def)
  ultimately show ?thesis using k by blast
qed

theorem C4_card_count_witness:
  "\<exists>b k' r b' ins'.
      newBoard (\<lambda>n. n) 0 3
        [\<lparr>optName = ''Player 3'', optPoints = Some 0, optIsTurn = Some False\<rparr>,
         \<lparr>optName = ''Player 4'', optPoints = Some 0, optIsTurn = Some False\<rparr>,
         \<lparr>optName = ''Player 5'', optPoints = Some 0, optIsTurn = Some False\<rparr>] = Inr (b, k')
    \<and> doATurn True b [(Refusal, 7), (Refusal, 1), (Refusal, 4)] = (r, b', ins')
    \<and> reachable b'
    \<and> length (allCards b') = 72
    \<and> length (filter (\<lambda>k. color k = ''red'' \<and> cardValue k = 9) (allCards b')) = 2"
proof -
  obtain b k' where nb: "newBoard (\<lambda>n. n) 0 3
        [\<lparr>optName = ''Player 3'', optPoints = Some 0, optIsTurn = Some False\<rparr>,
         \<lparr>optName = ''Player 4'', optPoints = Some 0, optIsTurn = Some False\<rparr>,
         \<lparr>optName = ''Player 5'', optPoints = Some 0, optIsTurn = Some False\<rparr>] = Inr (b, k')"
    using newBoard_defined[of 3 _ "\<lambda>n. n" 0] by force
  obtain r b' ins' where t: "doATurn True b [(Refusal, 7), (Refusal, 1), (Refusal, 4)] = (r, b', ins')"
    by (metis prod_cases3)
  have re: "reachable b'" using reachable.construct[OF nb] reachable.turn t by blast
  have "''red'' \<in> set colorNames" "9 \<in> set numbers" by (simp_all add: colorNames_def numbers_def)
  with C4_card_count[OF re] nb t re show ?thesis by blast
qed

section \<open>Victory and blocked games on concrete positions\<close>

text \<open>
  The positions are evaluated piece by piece: the extremes of the board and the cells
  that accept the card first, then the placement, then the scan for series.
\<close>

lemma availableCoordinates_iff:
  "co \<in> set (availableCoordinates b v) \<longleftrightarrow>
     (\<exists>c\<in>set (cards b). co \<in> set (possibleCoordinates (card_x c) (card_y c)))
     \<and> cellAccepts (cards b) v co \<and> \<not> lineExceedsLimit b co 6"
  by (auto simp: availableCoordinates_def)

lemma cardCanBePlaced_iff:
  "cards b \<noteq> [] \<Longrightarrow>
   cardCanBePlaced b c px py \<longleftrightarrow>
     \<not> (px > 5 \<or> px < -5 \<or> py > 5 \<or> py < -5)
     \<and> (px, py) \<in> set (availableCoordinates b (cardValue c))"
  by (auto simp: cardCanBePlaced_def boardIsEmpty_def Let_def list_ex_coordinates
      availableCoordinates_limit)

lemma cross_extremes: "boardExtremes crossCards = (2, -2, 2, -2)"
  by code_simp

lemma cross_accepts: "cellAccepts crossCards 5 (0, 0)"
  by code_simp

lemma cross_first: "placedCard ''blue'' 1 0 0 0 0 \<in> set crossCards"
  by (simp add: crossCards_def)

lemma cross_placeable: "cardCanBePlaced crossBoard (newCard ''red'' 5) 0 0"
proof -
  have c: "cards crossBoard = crossCards" by (simp add: crossBoard_def someBoard_def)
  have ne: "cards crossBoard \<noteq> []" using cross_first c by auto
  have "(0, 0) \<in> set (possibleCoordinates (card_x (placedCard ''blue'' 1 0 0 0 0))
            (card_y (placedCard ''blue'' 1 0 0 0 0)))"
    by (simp add: possibleCoordinates_def placedCard_def)
  moreover have "\<not> lineExceedsLimit crossBoard (0, 0) 6"
    by (simp add: lineExceedsLimit_def c cross_extremes distanceReached_def extremeStep_def)
  ultimately have "(0, 0) \<in> set (availableCoordinates crossBoard 5)"
    using cross_first cross_accepts unfolding availableCoordinates_iff c by blast
  then show ?thesis using ne by (simp add: cardCanBePlaced_iff newCard_def)
qed

lemma cross_playCard:
  "playCard crossBoard 0 0 (newCard ''red'' 5) 0 0
     = (''The card was successfully placed.'', crossPlaced, placedCard ''red'' 5 0 0 9 0)"
  using cross_placeable
  by (simp add: playCard_def placeCard_def cardInHand_def removeCardFromHand_def Let_def
      crossBoard_def crossPlaced_def someBoard_def somePlayer_def placedCard_def newCard_def)

lemma cross_checkVictory: "checkVictory crossPlaced = (NoWin, [], [0, 1])"
  by code_simp

lemma cross_series:
  "seriesView (determineSeriesOfCards crossAfter 5)
     = [[(''red'', 0, -2, Some 0), (''red'', 0, -1, Some 0), (''red'', 0, 0, Some 0),
         (''red'', 0, 1, Some 0), (''red'', 0, 2, Some 0)],
        [(''red'', -2, 0, Some 0), (''red'', -1, 0, Some 0), (''red'', 0, 0, Some 0),
         (''red'', 1, 0, Some 0), (''red'', 2, 0, Some 0)]]"
  by code_simp

text \<open>
  Claim C3, at a position where the code departs from it. In \<open>crossBoard\<close> player \<open>A\<close>
  plays the red 5 on \<open>(0, 0)\<close>. The scan for series of length 5 then finds the column
  \<open>x = 0\<close> and the row \<open>y = 0\<close>, ten red cards all played by \<open>A\<close>, and no other
  series; the other player has none. The step of \<open>A\<close> nevertheless falls through to the
  next player and the outcome stays \<open>None\<close>.
\<close>

theorem C3_two_lines_no_win:
  "playHand False crossBoard 0 0 [(Coords 0 0, 0)] = (Continue, crossAfter, [])
   \<and> winType crossAfter = NoWin
   \<and> seriesView (determineSeriesOfCards crossAfter 5)
     = [[(''red'', 0, -2, Some 0), (''red'', 0, -1, Some 0), (''red'', 0, 0, Some 0),
         (''red'', 0, 1, Some 0), (''red'', 0, 2, Some 0)],
        [(''red'', -2, 0, Some 0), (''red'', -1, 0, Some 0), (''red'', 0, 0, Some 0),
         (''red'', 1, 0, Some 0), (''red'', 2, 0, Some 0)]]"
proof -
  have h: "cardInHand (players crossBoard ! 0) = Some (newCard ''red'' 5)"
    by (simp add: crossBoard_def someBoard_def somePlayer_def cardInHand_def)
  have ne: "\<not> boardIsEmpty crossBoard"
    using cross_first by (auto simp: boardIsEmpty_def crossBoard_def someBoard_def)
  have fin: "crossPlaced\<lparr>players := (players crossPlaced)
      [0 := (snd (removeCardFromHand (players crossPlaced ! 0)))\<lparr>isTurn := False\<rparr>]\<rparr> = crossAfter"
    by (simp add: crossPlaced_def crossAfter_def someBoard_def somePlayer_def removeCardFromHand_def)
  have "playHand False crossBoard 0 0 [(Coords 0 0, 0)] = (Continue, crossAfter, [])"
    unfolding playHand_def
    by (simp add: h ne cross_placeable cross_playCard cross_checkVictory Let_def fin)
  moreover have "winType crossAfter = NoWin" by (simp add: crossAfter_def someBoard_def)
  ultimately show ?thesis using cross_series by simp
qed

lemma full_extremes: "boardExtremes fullBoxCards = (3, -2, 3, -2)"
  by code_simp

lemma full_covered:
  "list_all (\<lambda>co. list_ex (\<lambda>c. card_x c = fst co \<and> card_y c = snd co \<and> cardValue c \<ge> 1) fullBoxCards)
     (List.product [-2, -1, 0, 1, 2, 3] [-2, -1, 0, 1, 2, 3])"
  by code_simp

lemma full_exceeds:
  "lineExceedsLimit fullBoxBoard co 6 \<longleftrightarrow> \<not> (-2 \<le> fst co \<and> fst co \<le> 3 \<and> -2 \<le> snd co \<and> snd co \<le> 3)"
proof -
  have c: "cards fullBoxBoard = fullBoxCards" by (simp add: fullBoxBoard_def someBoard_def)
  show ?thesis
    by (auto simp: lineExceedsLimit_def c full_extremes distanceReached_def extremeStep_def)
qed

lemma full_blocked: "availableCoordinates fullBoxBoard 1 = []"
proof -
  have c: "cards fullBoxBoard = fullBoxCards" by (simp add: fullBoxBoard_def someBoard_def)
  have "lineExceedsLimit fullBoxBoard co 6" if acc: "cellAccepts fullBoxCards 1 co" for co
  proof (rule ccontr)
    assume "\<not> lineExceedsLimit fullBoxBoard co 6"
    then have b: "-2 \<le> fst co" "fst co \<le> 3" "-2 \<le> snd co" "snd co \<le> 3"
      using full_exceeds by auto
    have "fst co \<in> set [-2, -1, 0, 1, 2, 3]" using b(1,2) by (simp; arith)
    moreover have "snd co \<in> set [-2, -1, 0, 1, 2, 3]" using b(3,4) by (simp; arith)
    ultimately have "co \<in> set (List.product [-2, -1, 0, 1, 2, 3] [-2, -1, 0, 1, 2, 3])"
      by (metis mem_Sigma_iff prod.collapse set_product)
    then have "list_ex (\<lambda>c. card_x c = fst co \<and> card_y c = snd co \<and> cardValue c \<ge> 1) fullBoxCards"
      using full_covered unfolding list_all_iff by blast
    then show False using acc by (auto simp: cellAccepts_iff list_ex_iff)
  qed
  then show ?thesis unfolding availableCoordinates_def c
    by (auto simp: filter_empty_conv)
qed

lemma full_checkVictory: "checkVictory fullBoxBoard = (Draw, [], [0, 1])"
  by code_simp

lemma full_no_win: "hasWinningSeries fullBoxBoard 5 = None"
  by code_simp

lemma full_series:
  "seriesView (determineSeriesOfCards fullBoxBoard 3)
     = [[(''red'', 0, 0, Some 0), (''red'', 1, 0, Some 0), (''red'', 2, 0, Some 0)]]"
  by code_simp

text \<open>
  Claim C2, at a position where the code departs from it. In \<open>fullBoxBoard\<close> it is the
  turn of \<open>B\<close>, who holds a green 1 that no cell accepts; there is no series of length
  5; the only series of length 3 is the red row \<open>(0, 0)\<close>, \<open>(1, 0)\<close>, \<open>(2, 0)\<close> of
  \<open>A\<close>. \<open>checkVictory\<close> answers \<open>Draw\<close> with no winner and both players as losers.
\<close>

theorem C2_single_run_draw:
  "length (cards fullBoxBoard) = 37
   \<and> getPlayerTurn fullBoxBoard = Some 1
   \<and> hand (players fullBoxBoard ! 1) = Some (newCard ''green'' 1)
   \<and> availableCoordinates fullBoxBoard 1 = []
   \<and> hasWinningSeries fullBoxBoard 5 = None
   \<and> seriesView (determineSeriesOfCards fullBoxBoard 3)
       = [[(''red'', 0, 0, Some 0), (''red'', 1, 0, Some 0), (''red'', 2, 0, Some 0)]]
   \<and> checkVictory fullBoxBoard = (Draw, [], [0, 1])"
proof -
  have "length (cards fullBoxBoard) = 37"
    by (simp add: fullBoxBoard_def someBoard_def fullBoxCards_def)
  moreover have "getPlayerTurn fullBoxBoard = Some 1"
    by (simp add: getPlayerTurn_def fullBoxBoard_def someBoard_def somePlayer_def upt_rec)
  moreover have "hand (players fullBoxBoard ! 1) = Some (newCard ''green'' 1)"
    by (simp add: fullBoxBoard_def someBoard_def somePlayer_def)
  ultimately show ?thesis
    using full_blocked full_no_win full_series full_checkVictory by simp
qed

lemma block_checkVictory: "checkVictory blockDrawn = (Win, [0, 0], [1])"
  by code_simp

lemma block_nonempty: "\<not> boardIsEmpty blockDrawn"
  by (simp add: boardIsEmpty_def blockDrawn_def someBoard_def blockCards_def)

lemma block_finish: "finishGame blockDrawn = blockAfter"
  unfolding finishGame_def block_checkVictory
  by (simp add: endGame_def addPointsTo_def addPoints_def Let_def
      blockDrawn_def blockAfter_def someBoard_def somePlayer_def)

lemma block_playHand: "playHand False blockDrawn 0 0 [(Refusal, 0)] = (Return, blockAfter, [])"
proof -
  have h: "cardInHand (players blockDrawn ! 0) = Some (newCard ''blue'' 4)"
    by (simp add: blockDrawn_def someBoard_def somePlayer_def cardInHand_def)
  show ?thesis unfolding playHand_def by (simp add: h block_nonempty block_finish)
qed

lemma block_step: "playerStep False blockBoard 0 0 [(Refusal, 0)] = (Return, blockAfter, [])"
proof -
  have "(blockBoard\<lparr>players := (players blockBoard)[0 := (players blockBoard ! 0)\<lparr>isTurn := True\<rparr>]\<rparr>)
      = blockBoard"
    by (simp add: blockBoard_def someBoard_def somePlayer_def)
  moreover have "cardInHand (players blockBoard ! 0) = None"
    by (simp add: blockBoard_def someBoard_def somePlayer_def cardInHand_def)
  moreover have "drawCard (players blockBoard ! 0) = (True, somePlayer ''A'' True (Some (newCard ''blue'' 4)) [])"
    by (simp add: blockBoard_def someBoard_def somePlayer_def drawCard_def)
  moreover have "blockBoard\<lparr>players := (players blockBoard)[0 := somePlayer ''A'' True (Some (newCard ''blue'' 4)) []]\<rparr>
      = blockDrawn"
    by (simp add: blockBoard_def blockDrawn_def someBoard_def)
  ultimately show ?thesis unfolding playerStep_def by (simp add: Let_def block_playHand)
qed

text \<open>
  Claim C10, at a position where the code departs from it. In \<open>blockBoard\<close> player \<open>A\<close>
  draws and the provider refuses. The game ends with outcome \<open>Win\<close>; the list of winners
  holds \<open>A\<close> twice, and the points of \<open>A\<close> have gone from 0 to 2.
\<close>

theorem C10_winner_counted_twice:
  "doATurn False blockBoard [(Refusal, 0)] = (Return, blockAfter, [])
   \<and> winType blockAfter = Win \<and> winners blockAfter = [0, 0] \<and> losers blockAfter = [1]
   \<and> points (players blockBoard ! 0) = 0 \<and> points (players blockAfter ! 0) = 2"
proof -
  have l: "[0..<length (players blockBoard)] = [0, 1]"
    by (simp add: blockBoard_def someBoard_def upt_rec)
  have w: "winType blockBoard = NoWin" by (simp add: blockBoard_def someBoard_def)
  have "doATurn False blockBoard [(Refusal, 0)] = (Return, blockAfter, [])"
    unfolding doATurn_def by (simp add: l w isGameOver_def block_step)
  then show ?thesis
    by (simp add: blockAfter_def blockBoard_def someBoard_def somePlayer_def)
qed

section \<open>Refusal of the coordinate provider\<close>

text \<open>
  On a non-empty board a refusal ends the \<open>do ... while\<close> loop whenever it comes: as the
  first answer, or after any number of answers that \<open>cardCanBePlaced\<close> has rejected.
\<close>

lemma coordinatesLoop_refusal:
  assumes "\<not> boardIsEmpty b"
    and "\<forall>i\<in>set ins. \<exists>ax ay. fst i = Coords ax ay \<and> \<not> cardCanBePlaced b c ax ay"
  shows "coordinatesLoop False b c px py (ins @ (Refusal, r) # rest) = Refused rest"
  using assms(2)
proof (induction ins arbitrary: px py)
  case Nil
  then show ?case using assms(1) by simp
next
  case (Cons i ins)
  then obtain ax ay where i: "fst i = Coords ax ay" and no: "\<not> cardCanBePlaced b c ax ay"
    by auto
  have "coordinatesLoop False b c ax ay (ins @ (Refusal, r) # rest) = Refused rest"
    using Cons by simp
  then show ?case using assms(1) i no by simp
qed

text \<open>
  The step then ends the game with what \<open>checkVictory\<close> finds for the board as it stands.
  The player whose turn it is still holds the card, so \<open>isGameBlocked\<close> is true and the
  outcome is \<open>Win\<close> or \<open>Draw\<close>; \<open>Drop\<close> is not among the results of \<open>checkVictory\<close>.
\<close>

lemma refusal_ends_game:
  assumes "cards b \<noteq> []" and "getPlayerTurn b = Some pl" and "hand (players b ! pl) = Some c"
    and "\<forall>i\<in>set ins. \<exists>ax ay. fst i = Coords ax ay \<and> \<not> cardCanBePlaced b c ax ay"
  shows "playHand False b pl playerTurn (ins @ (Refusal, r) # rest) = (Return, finishGame b, rest)
     \<and> (winType (finishGame b) = Win \<or> winType (finishGame b) = Draw)
     \<and> (winType (finishGame b) = Draw \<longrightarrow>
           winners (finishGame b) = [] \<and> losers (finishGame b) = allPlayers b)
     \<and> (winType (finishGame b) = Win \<longrightarrow>
           winners (finishGame b) \<noteq> []
           \<and> losers (finishGame b) = filter (\<lambda>p. p \<notin> set (winners (finishGame b))) (allPlayers b))
     \<and> cards (finishGame b) = cards b"
proof -
  have ne: "\<not> boardIsEmpty b" using assms(1) by (simp add: boardIsEmpty_def)
  have h: "cardInHand (players b ! pl) = Some c" using assms(3) by (simp add: cardInHand_def)
  have ph: "playHand False b pl playerTurn (ins @ (Refusal, r) # rest) = (Return, finishGame b, rest)"
    unfolding playHand_def by (simp add: h coordinatesLoop_refusal[OF ne assms(4)])
  have blocked: "isGameBlocked b" using assms(2) h by (simp add: isGameBlocked_def)
  obtain wt ws ls where cv: "checkVictory b = (wt, ws, ls)" by (metis prod_cases3)
  have fg: "winType (finishGame b) = wt" "winners (finishGame b) = ws" "losers (finishGame b) = ls"
    "cards (finishGame b) = cards b"
    by (simp_all add: finishGame_def cv endGame_def Let_def)
  have "(wt = Win \<or> wt = Draw) \<and> (wt = Draw \<longrightarrow> ws = [] \<and> ls = allPlayers b)
      \<and> (wt = Win \<longrightarrow> ws \<noteq> [] \<and> ls = filter (\<lambda>p. p \<notin> set ws) (allPlayers b))"
    using cv blocked by (auto simp: checkVictory_def Let_def split: option.splits if_splits)
  then show ?thesis using ph fg by simp
qed

lemma refusal_cells: "cardCanBePlaced refusalBoard (newCard ''blue'' 4) 0 1"
  by code_simp

lemma refusal_checkVictory: "checkVictory refusalBoard = (Draw, [], [0, 1])"
  by code_simp

lemma refusal_playHand:
  assumes "ins = [] \<or> ins = [(Coords 9 9, 0)]"
  shows "playHand False refusalBoard 0 0 (ins @ [(Refusal, 0)]) = (Return, refusalAfter, [])"
proof -
  have a: "cards refusalBoard \<noteq> []" by (simp add: refusalBoard_def someBoard_def)
  have b: "getPlayerTurn refusalBoard = Some 0"
    by (simp add: getPlayerTurn_def refusalBoard_def someBoard_def somePlayer_def upt_rec)
  have c: "hand (players refusalBoard ! 0) = Some (newCard ''blue'' 4)"
    by (simp add: refusalBoard_def someBoard_def somePlayer_def)
  have "\<not> cardCanBePlaced refusalBoard (newCard ''blue'' 4) 9 9"
    by (simp add: cardCanBePlaced_def)
  then have d: "\<forall>i\<in>set ins. \<exists>ax ay. fst i = Coords ax ay
      \<and> \<not> cardCanBePlaced refusalBoard (newCard ''blue'' 4) ax ay"
    using assms by auto
  have "finishGame refusalBoard = refusalAfter"
    unfolding finishGame_def refusal_checkVictory
    by (simp add: endGame_def refusalBoard_def refusalAfter_def someBoard_def)
  then show ?thesis using refusal_ends_game[OF a b c d, of 0 0 "[]"] by simp
qed

lemma refusal_doATurn:
  assumes "ins = [] \<or> ins = [(Coords 9 9, 0)]"
  shows "doATurn False refusalStart (ins @ [(Refusal, 0)]) = (Return, refusalAfter, [])"
proof -
  have "(refusalStart\<lparr>players := (players refusalStart)[0 := (players refusalStart ! 0)\<lparr>isTurn := True\<rparr>]\<rparr>)
      = refusalStart"
    by (simp add: refusalStart_def someBoard_def somePlayer_def)
  moreover have "cardInHand (players refusalStart ! 0) = None"
    by (simp add: refusalStart_def someBoard_def somePlayer_def cardInHand_def)
  moreover have "drawCard (players refusalStart ! 0)
      = (True, somePlayer ''A'' True (Some (newCard ''blue'' 4)) [newCard ''red'' 3])"
    by (simp add: refusalStart_def someBoard_def somePlayer_def drawCard_def)
  moreover have "refusalStart\<lparr>players := (players refusalStart)
        [0 := somePlayer ''A'' True (Some (newCard ''blue'' 4)) [newCard ''red'' 3]]\<rparr>
      = refusalBoard"
    by (simp add: refusalStart_def refusalBoard_def someBoard_def)
  ultimately have step: "playerStep False refusalStart 0 0 (ins @ [(Refusal, 0)])
      = (Return, refusalAfter, [])"
    unfolding playerStep_def by (simp add: Let_def refusal_playHand[OF assms])
  have l: "[0..<length (players refusalStart)] = [0, 1]"
    by (simp add: refusalStart_def someBoard_def upt_rec)
  have w: "winType refusalStart = NoWin" by (simp add: refusalStart_def someBoard_def)
  show ?thesis unfolding doATurn_def by (simp add: l w isGameOver_def step)
qed

text \<open>
  Claim C1, at a position where the code departs from it. In \<open>refusalStart\<close> player \<open>A\<close>
  draws the blue 4, which the cell \<open>(0, 1)\<close> among others would take. Whether the provider
  refuses at once or after an answer that was rejected, \<open>doATurn\<close> ends the game with
  outcome \<open>Draw\<close>, not \<open>Drop\<close>; the list of winners is empty and the list of losers
  holds both players.
\<close>

theorem C1_refusal_gives_draw:
  "cardCanBePlaced refusalBoard (newCard ''blue'' 4) 0 1
   \<and> doATurn False refusalStart [(Refusal, 0)] = (Return, refusalAfter, [])
   \<and> doATurn False refusalStart [(Coords 9 9, 0), (Refusal, 0)] = (Return, refusalAfter, [])
   \<and> winType refusalAfter = Draw \<and> winType refusalAfter \<noteq> Drop
   \<and> winners refusalAfter = [] \<and> losers refusalAfter = [0, 1]"
  using refusal_cells refusal_doATurn[of "[]"] refusal_doATurn[of "[(Coords 9 9, 0)]"]
  by (simp add: refusalAfter_def)

end
